theory Spec2Isabelle
  imports Complex_Main
begin

section \<open>Data model\<close>

text \<open>
  The component \<^verbatim>\<open>MapView\<close> (src/components/MapView.tsx) keeps an imperative map
  widget in step with its props. The props are modelled as a record, the refs and the
  widget's object graph as one state record, and every handler of the source as a
  function on that state. Callbacks are function values compared by reference, so a
  callback is a number naming it; an object-valued prop is a pair of its reference and
  its content, so that equality of two props is the comparison of a dependency array
  (the component only reads these objects, and they are not changed in place).
  Coordinates are passed on unchanged, no arithmetic is done on them, so they are reals.
\<close>

type_synonym handler = nat

type_synonym 'a obj = "nat \<times> 'a"

type_synonym latlng = "real \<times> real"

text \<open>
  Modelled from the spec: the declarations of \<^verbatim>\<open>Station\<close>, \<^verbatim>\<open>UserLocation\<close> and
  \<^verbatim>\<open>Location\<close> (\<^verbatim>\<open>../types\<close>) are not part of the sources at hand. The fields are the
  ones the component reads: identity, name, category, capacity, availability, status
  and a geographic coordinate.
\<close>

record location =
  lat :: real
  lng :: real

record station =
  st_id :: string
  st_name :: string
  st_type :: string
  st_capacity :: int
  st_available :: int
  st_status :: string
  st_location :: location

record props =
  stations :: "station list obj"
  userLocation :: "location obj option"
  selectedStation :: "station obj option"
  routeDestination :: "station obj option"
  onStationSelect :: handler
  onDeselect :: "handler option"
  showRoute :: bool
  isPickingLocation :: bool
  onLocationPicked :: "handler option"
  onCreateRoute :: "handler option"
  onRemoveRoute :: "handler option"
  onReportStatus :: "handler option"

text \<open>The calls the component makes on the handlers it was given.\<close>

datatype signal =
    StationSelected handler station
  | Deselected handler
  | LocationPicked handler location
  | CreateRoute handler
  | RemoveRoute handler
  | ReportStatus handler string

text \<open>The view commands the component issues on the map.\<close>

datatype view_cmd =
    SetView latlng nat
  | FlyTo latlng nat "real option"
  | FitBounds "latlng list" "nat \<times> nat"

datatype line_style = Solid | Dashed

record overlay =
  path :: "latlng list"
  style :: line_style

datatype icon = LargeIcon | PointGlyph

text \<open>
  A station marker: what is drawn, the \<^verbatim>\<open>data-action\<close> of the route button of its popup,
  whether the popup was scheduled to open, and what the click listener closed over.
\<close>

record marker =
  m_station :: station
  m_at :: latlng
  m_icon :: icon
  m_action :: string
  m_autoOpen :: bool
  m_picking :: bool
  m_onSelect :: handler

text \<open>
  One run of the route effect: its \<^verbatim>\<open>isCancelled\<close> variable and the state of the
  request that \<^verbatim>\<open>fetchRoute\<close> issued, with the two end points it closed over.
\<close>

datatype fetch = NotIssued | InFlight latlng latlng | Settled

record attempt =
  isCancelled :: bool
  fetch :: fetch

text \<open>
  What the two awaits of \<^verbatim>\<open>fetchRoute\<close> deliver. \<open>Failed\<close>: \<^verbatim>\<open>fetch\<close> or \<^verbatim>\<open>response.json()\<close>
  rejects, or reading \<^verbatim>\<open>data.routes\<close> throws. \<open>Parsed None\<close>: \<^verbatim>\<open>data.routes\<close> is absent
  or falsy. \<open>Parsed (Some rs)\<close>: \<^verbatim>\<open>data.routes\<close> has the elements \<open>rs\<close>, where a route
  is \<open>None\<close> when reading \<^verbatim>\<open>geometry.coordinates.map\<close> throws, and otherwise its list
  of \<^verbatim>\<open>[lng, lat]\<close> pairs.
\<close>

type_synonym route = "(real \<times> real) list option"

datatype reply = Failed | Parsed "route list option"

record mapview =
  mounted :: bool
  cur :: props
  mapInstance :: bool
  onCreateRouteRef :: "handler option"
  onRemoveRouteRef :: "handler option"
  onReportStatusRef :: "handler option"
  onDeselectRef :: "handler option"
  isSwitchingPopup :: bool
  hasFittedRouteRef :: bool
  routeLayerRef :: "overlay option"
  userMarkerRef :: "latlng option"
  clusterGroupRef :: "marker list option"
  pickCleanup :: "handler option option"
  routeCleanup :: "nat option"
  attempts :: "attempt list"
  widget :: bool
  layers :: "overlay list"
  listeners :: "handler option list"
  views :: "view_cmd list"
  timers :: nat
  signals :: "signal list"

section \<open>Popup buttons and popup lifecycle\<close>

text \<open>
  The click listener that \<^verbatim>\<open>bindPopupButtons\<close> puts on the route button; the argument
  is what \<^verbatim>\<open>getAttribute('data-action')\<close> returns.
\<close>

definition routeBtnClick :: "string option \<Rightarrow> mapview \<Rightarrow> mapview" where
  "routeBtnClick action s =
     (if action = Some ''remove'' \<and> onRemoveRouteRef s \<noteq> None then
        (case onRemoveRouteRef s of
           Some h \<Rightarrow> s\<lparr>signals := signals s @ [RemoveRoute h]\<rparr>
         | None \<Rightarrow> s)
      else
        (case onCreateRouteRef s of
           Some h \<Rightarrow> s\<lparr>signals := signals s @ [CreateRoute h]\<rparr>
         | None \<Rightarrow> s))"

text \<open>The listener of the report button; an empty attribute is falsy.\<close>

definition reportBtnClick :: "string option \<Rightarrow> mapview \<Rightarrow> mapview" where
  "reportBtnClick stationId s =
     (case (stationId, onReportStatusRef s) of
        (Some i, Some h) \<Rightarrow>
          if i \<noteq> [] then s\<lparr>signals := signals s @ [ReportStatus h i]\<rparr> else s
      | _ \<Rightarrow> s)"

definition popupopen :: "mapview \<Rightarrow> mapview" where
  "popupopen s = s\<lparr>isSwitchingPopup := False\<rparr>"

text \<open>\<^verbatim>\<open>popupclose\<close> sets the flag and arms a timer of 200 ms.\<close>

definition popupclose :: "mapview \<Rightarrow> mapview" where
  "popupclose s = s\<lparr>isSwitchingPopup := True, timers := Suc (timers s)\<rparr>"

text \<open>The callback of one such timer.\<close>

definition deselectTimeout :: "mapview \<Rightarrow> mapview" where
  "deselectTimeout s =
     (if isSwitchingPopup s then
        (case onDeselectRef s of
           Some h \<Rightarrow> s\<lparr>signals := signals s @ [Deselected h]\<rparr>
         | None \<Rightarrow> s)\<lparr>isSwitchingPopup := False\<rparr>
      else s)"

section \<open>The effects\<close>

definition refsEffect :: "mapview \<Rightarrow> mapview" where
  "refsEffect s = s\<lparr>onCreateRouteRef := onCreateRoute (cur s),
                    onRemoveRouteRef := onRemoveRoute (cur s),
                    onReportStatusRef := onReportStatus (cur s),
                    onDeselectRef := onDeselect (cur s)\<rparr>"

text \<open>
  The effect that creates the map once, with its cluster group; \<^verbatim>\<open>setMapInstance\<close>
  takes effect at the next commit.
\<close>

definition initEffect :: "mapview \<Rightarrow> mapview" where
  "initEffect s =
     (if mapInstance s then s
      else s\<lparr>widget := True, clusterGroupRef := Some [],
             views := views s @
               [SetView (case userLocation (cur s) of
                           Some (_, u) \<Rightarrow> (lat u, lng u)
                         | None \<Rightarrow> (41.0082, 28.9784)) 13]\<rparr>)"

text \<open>\<^verbatim>\<open>map.remove()\<close> destroys the map with its layers and listeners.\<close>

definition initTeardown :: "mapview \<Rightarrow> mapview" where
  "initTeardown s = s\<lparr>widget := False, layers := [], listeners := []\<rparr>"

definition pickingEffect :: "mapview \<Rightarrow> mapview" where
  "pickingEffect s =
     (if \<not> mapInstance s then s\<lparr>pickCleanup := None\<rparr>
      else if isPickingLocation (cur s) then
        s\<lparr>listeners := listeners s @ [onLocationPicked (cur s)],
          pickCleanup := Some (onLocationPicked (cur s))\<rparr>
      else s\<lparr>pickCleanup := None\<rparr>)"

definition pickingTeardown :: "mapview \<Rightarrow> mapview" where
  "pickingTeardown s =
     (case pickCleanup s of
        None \<Rightarrow> s
      | Some h \<Rightarrow> s\<lparr>listeners := remove1 h (listeners s), pickCleanup := None\<rparr>)"

text \<open>The click listener that the picking effect registers on the map.\<close>

definition pickHandler :: "latlng \<Rightarrow> handler option \<Rightarrow> signal list" where
  "pickHandler c h =
     (case h of
        Some f \<Rightarrow> [LocationPicked f \<lparr>lat = fst c, lng = snd c\<rparr>]
      | None \<Rightarrow> [])"

definition mapClick :: "latlng \<Rightarrow> mapview \<Rightarrow> mapview" where
  "mapClick c s = s\<lparr>signals := signals s @ concat (map (pickHandler c) (listeners s))\<rparr>"

definition userLocationEffect :: "mapview \<Rightarrow> mapview" where
  "userLocationEffect s =
     (case userLocation (cur s) of
        None \<Rightarrow> s
      | Some (_, u) \<Rightarrow>
          if \<not> mapInstance s then s
          else if userMarkerRef s = None then
            (let s1 = s\<lparr>userMarkerRef := Some (lat u, lng u)\<rparr> in
             if selectedStation (cur s) = None
             then s1\<lparr>views := views s1 @ [FlyTo (lat u, lng u) 14 None]\<rparr>
             else s1)
          else s\<lparr>userMarkerRef := Some (lat u, lng u)\<rparr>)"

definition isSelected :: "props \<Rightarrow> station \<Rightarrow> bool" where
  "isSelected p st =
     (case selectedStation p of None \<Rightarrow> False | Some (_, x) \<Rightarrow> st_id x = st_id st)"

definition isDestination :: "props \<Rightarrow> station \<Rightarrow> bool" where
  "isDestination p st =
     (case routeDestination p of None \<Rightarrow> False | Some (_, x) \<Rightarrow> st_id x = st_id st)"

text \<open>The body of the loop over the stations; colours and glyphs are left out.\<close>

definition markerFor :: "props \<Rightarrow> station \<Rightarrow> marker" where
  "markerFor p st =
     (let isRouteActive = showRoute p \<and> isDestination p st in
      \<lparr>m_station = st,
       m_at = (lat (st_location st), lng (st_location st)),
       m_icon = (if isSelected p st \<or> isDestination p st then LargeIcon else PointGlyph),
       m_action = (if isRouteActive then ''remove'' else ''create''),
       m_autoOpen = isSelected p st,
       m_picking = isPickingLocation p,
       m_onSelect = onStationSelect p\<rparr>)"

definition stationsEffect :: "mapview \<Rightarrow> mapview" where
  "stationsEffect s =
     (if \<not> mapInstance s \<or> clusterGroupRef s = None then s
      else s\<lparr>clusterGroupRef := Some (map (markerFor (cur s)) (snd (stations (cur s))))\<rparr>)"

definition markerClick :: "marker \<Rightarrow> signal list" where
  "markerClick m =
     (if \<not> m_picking m then [StationSelected (m_onSelect m) (m_station m)] else [])"

definition fittedEffect :: "mapview \<Rightarrow> mapview" where
  "fittedEffect s = s\<lparr>hasFittedRouteRef := False\<rparr>"

definition removeRouteLayer :: "mapview \<Rightarrow> mapview" where
  "removeRouteLayer s =
     (case routeLayerRef s of
        None \<Rightarrow> s
      | Some l \<Rightarrow> s\<lparr>layers := removeAll l (layers s), routeLayerRef := None\<rparr>)"

text \<open>The guard of \<^verbatim>\<open>fetchRoute\<close>, and the request it issues.\<close>

definition startRoute :: "props \<Rightarrow> fetch" where
  "startRoute p =
     (case (userLocation p, routeDestination p) of
        (Some (_, u), Some (_, d)) \<Rightarrow>
          if showRoute p \<and> \<not> isPickingLocation p
          then InFlight (lat u, lng u) (lat (st_location d), lng (st_location d))
          else NotIssued
      | _ \<Rightarrow> NotIssued)"

definition routeEffect :: "mapview \<Rightarrow> mapview" where
  "routeEffect s =
     (if \<not> mapInstance s then s\<lparr>routeCleanup := None\<rparr>
      else
        (let s1 = removeRouteLayer s in
         s1\<lparr>attempts := attempts s1 @ [\<lparr>isCancelled = False, fetch = startRoute (cur s1)\<rparr>],
            routeCleanup := Some (length (attempts s1))\<rparr>))"

definition cancel :: "nat \<Rightarrow> attempt list \<Rightarrow> attempt list" where
  "cancel i as = (if i < length as then as[i := (as ! i)\<lparr>isCancelled := True\<rparr>] else as)"

definition routeTeardown :: "mapview \<Rightarrow> mapview" where
  "routeTeardown s =
     (case routeCleanup s of
        None \<Rightarrow> s
      | Some i \<Rightarrow>
          removeRouteLayer (s\<lparr>attempts := cancel i (attempts s), routeCleanup := None\<rparr>))"

text \<open>
  \<^verbatim>\<open>fitBounds\<close> on the bounds of a list of points: the map throws when the bounds are not
  valid, which is the case of no point at all (\<open>None\<close>); otherwise the view is fitted with
  the padding of the source.
\<close>

definition fitBounds :: "latlng list \<Rightarrow> mapview \<Rightarrow> mapview option" where
  "fitBounds ps s =
     (if ps = [] then None else Some (s\<lparr>views := views s @ [FitBounds ps (50, 50)]\<rparr>))"

text \<open>The assignment of a new polyline, added to the map, to \<^verbatim>\<open>routeLayerRef\<close>.\<close>

definition addRouteLayer :: "overlay \<Rightarrow> mapview \<Rightarrow> mapview" where
  "addRouteLayer l s = s\<lparr>routeLayerRef := Some l, layers := layers s @ [l]\<rparr>"

text \<open>
  The fit under the test of \<^verbatim>\<open>hasFittedRouteRef\<close>. \<open>Inl\<close> is an exception, with the state
  it leaves behind; \<open>Inr\<close> is the normal end.
\<close>

definition fitOnce :: "latlng list \<Rightarrow> mapview \<Rightarrow> mapview + mapview" where
  "fitOnce ps s =
     (if \<not> hasFittedRouteRef s then
        (case fitBounds ps s of
           None \<Rightarrow> Inl s
         | Some s1 \<Rightarrow> Inr (s1\<lparr>hasFittedRouteRef := True\<rparr>))
      else Inr s)"

text \<open>
  The statements of the \<^verbatim>\<open>try\<close> block once the points are built: the solid polyline is
  attached first, the view fitted after.
\<close>

definition drawRoute :: "latlng list \<Rightarrow> mapview \<Rightarrow> mapview + mapview" where
  "drawRoute latLngs s = fitOnce latLngs (addRouteLayer \<lparr>path = latLngs, style = Solid\<rparr> s)"

text \<open>The statements of the \<^verbatim>\<open>catch\<close> block after its test of \<^verbatim>\<open>isCancelled\<close>.\<close>

definition drawFallback :: "latlng \<Rightarrow> latlng \<Rightarrow> mapview \<Rightarrow> mapview + mapview" where
  "drawFallback a b s = fitOnce [a, b] (addRouteLayer \<lparr>path = [a, b], style = Dashed\<rparr> s)"

text \<open>
  The \<^verbatim>\<open>catch\<close> block of an attempt whose \<^verbatim>\<open>isCancelled\<close> is \<open>c\<close>; an exception in it ends
  \<^verbatim>\<open>fetchRoute\<close> with the state as it is.
\<close>

definition catchBlock :: "bool \<Rightarrow> latlng \<Rightarrow> latlng \<Rightarrow> mapview \<Rightarrow> mapview" where
  "catchBlock c a b s =
     (if c then s else (case drawFallback a b s of Inl s1 \<Rightarrow> s1 | Inr s1 \<Rightarrow> s1))"

definition settle :: "nat \<Rightarrow> mapview \<Rightarrow> mapview" where
  "settle i s = s\<lparr>attempts := (attempts s)[i := (attempts s ! i)\<lparr>fetch := Settled\<rparr>]\<rparr>"

text \<open>
  The rest of \<^verbatim>\<open>fetchRoute\<close> of attempt \<open>i\<close>, from the awaits on; a request is answered
  once. An exception in the \<^verbatim>\<open>try\<close> block, also one thrown after the polyline was
  attached, is handled by the \<^verbatim>\<open>catch\<close> block.
\<close>

definition resolve :: "nat \<Rightarrow> reply \<Rightarrow> mapview \<Rightarrow> mapview" where
  "resolve i r s =
     (if i < length (attempts s) then
        (case fetch (attempts s ! i) of
           InFlight a b \<Rightarrow>
             (let c = isCancelled (attempts s ! i); s1 = settle i s in
              case r of
                Failed \<Rightarrow> catchBlock c a b s1
              | Parsed rs \<Rightarrow>
                  if c then s1
                  else (case rs of
                          Some (Some cs # _) \<Rightarrow>
                            (case drawRoute (map (\<lambda>(x, y). (y, x)) cs) s1 of
                               Inr s2 \<Rightarrow> s2
                             | Inl s2 \<Rightarrow> catchBlock c a b s2)
                        | Some (None # _) \<Rightarrow> catchBlock c a b s1
                        | _ \<Rightarrow> s1))
         | _ \<Rightarrow> s)
      else s)"

definition centerEffect :: "mapview \<Rightarrow> mapview" where
  "centerEffect s =
     (case selectedStation (cur s) of
        None \<Rightarrow> s
      | Some (_, st) \<Rightarrow>
          if mapInstance s \<and> \<not> showRoute (cur s) \<and> \<not> isPickingLocation (cur s)
          then s\<lparr>views := views s @
                   [FlyTo (lat (st_location st), lng (st_location st)) 16 (Some (3 / 2))]\<rparr>
          else s)"

section \<open>Commits and events\<close>

text \<open>The dependency arrays of the effects, in the order of the source.\<close>

definition refsDeps :: "props \<Rightarrow> handler option \<times> handler option \<times> handler option \<times> handler option" where
  "refsDeps p = (onCreateRoute p, onRemoveRoute p, onReportStatus p, onDeselect p)"

definition pickingDeps :: "props \<Rightarrow> bool \<Rightarrow> bool \<times> handler option \<times> bool" where
  "pickingDeps p mi = (isPickingLocation p, onLocationPicked p, mi)"

definition userDeps :: "props \<Rightarrow> bool \<Rightarrow> location obj option \<times> bool" where
  "userDeps p mi = (userLocation p, mi)"

definition stationsDeps ::
  "props \<Rightarrow> bool \<Rightarrow> station list obj \<times> station obj option \<times> station obj option \<times> bool \<times> bool \<times> bool" where
  "stationsDeps p mi =
     (stations p, selectedStation p, routeDestination p, showRoute p, isPickingLocation p, mi)"

definition fittedDeps :: "props \<Rightarrow> station obj option \<times> bool" where
  "fittedDeps p = (routeDestination p, showRoute p)"

definition routeDeps ::
  "props \<Rightarrow> bool \<Rightarrow> bool \<times> location obj option \<times> station obj option \<times> bool \<times> bool" where
  "routeDeps p mi = (showRoute p, userLocation p, routeDestination p, isPickingLocation p, mi)"

definition centerDeps :: "props \<Rightarrow> bool \<Rightarrow> station obj option \<times> bool \<times> bool \<times> bool" where
  "centerDeps p mi = (selectedStation p, showRoute p, isPickingLocation p, mi)"

definition whenD :: "bool \<Rightarrow> (mapview \<Rightarrow> mapview) \<Rightarrow> mapview \<Rightarrow> mapview" where
  "whenD d f s = (if d then f s else s)"

text \<open>
  One commit of the component with the props \<open>p\<close> and the state value \<open>mi\<close> of
  \<^verbatim>\<open>mapInstance\<close>, as React runs the effects of a function component: an effect runs
  after the first commit, and after a later commit when an entry of its dependency
  array differs from the entry of the commit before; the cleanups that the last runs of
  those effects returned run first, then their bodies, each in the order of the source.
  An effect that returned no cleanup has none to run. The handlers of the event loop run
  to completion, so a commit with its effects is one step.
\<close>

definition teardowns :: "bool \<Rightarrow> props \<Rightarrow> bool \<Rightarrow> mapview \<Rightarrow> mapview" where
  "teardowns first p mi s =
     whenD (first \<or> routeDeps p mi \<noteq> routeDeps (cur s) (mapInstance s)) routeTeardown
       (whenD (first \<or> pickingDeps p mi \<noteq> pickingDeps (cur s) (mapInstance s)) pickingTeardown s)"

definition bodies :: "bool \<Rightarrow> props \<Rightarrow> bool \<Rightarrow> mapview \<Rightarrow> mapview" where
  "bodies first q m s =
     whenD (first \<or> centerDeps (cur s) (mapInstance s) \<noteq> centerDeps q m) centerEffect
    (whenD (first \<or> routeDeps (cur s) (mapInstance s) \<noteq> routeDeps q m) routeEffect
    (whenD (first \<or> fittedDeps (cur s) \<noteq> fittedDeps q) fittedEffect
    (whenD (first \<or> stationsDeps (cur s) (mapInstance s) \<noteq> stationsDeps q m) stationsEffect
    (whenD (first \<or> userDeps (cur s) (mapInstance s) \<noteq> userDeps q m) userLocationEffect
    (whenD (first \<or> pickingDeps (cur s) (mapInstance s) \<noteq> pickingDeps q m) pickingEffect
    (whenD first initEffect
    (whenD (first \<or> refsDeps (cur s) \<noteq> refsDeps q) refsEffect s)))))))"

definition commit :: "bool \<Rightarrow> props \<Rightarrow> bool \<Rightarrow> mapview \<Rightarrow> mapview" where
  "commit first p mi s =
     bodies first (cur s) (mapInstance s) ((teardowns first p mi s)\<lparr>cur := p, mapInstance := mi\<rparr>)"

text \<open>The component before its first commit: the initial values of its refs and state.\<close>

definition initial :: "props \<Rightarrow> mapview" where
  "initial p =
     \<lparr>mounted = True, cur = p, mapInstance = False,
      onCreateRouteRef = onCreateRoute p, onRemoveRouteRef = onRemoveRoute p,
      onReportStatusRef = onReportStatus p, onDeselectRef = onDeselect p,
      isSwitchingPopup = False, hasFittedRouteRef = False,
      routeLayerRef = None, userMarkerRef = None, clusterGroupRef = None,
      pickCleanup = None, routeCleanup = None, attempts = [],
      widget = False, layers = [], listeners = [], views = [], timers = 0, signals = []\<rparr>"

text \<open>
  Mounting: the first commit, in which the map is created, and the commit that
  \<^verbatim>\<open>setMapInstance\<close> causes.
\<close>

definition mount :: "props \<Rightarrow> mapview" where
  "mount p = commit False p True (commit True p False (initial p))"

definition unmount :: "mapview \<Rightarrow> mapview" where
  "unmount s = (routeTeardown (pickingTeardown (initTeardown s)))\<lparr>mounted := False\<rparr>"

datatype event =
    Render props
  | Unmount
  | PopupOpen
  | PopupClose
  | TimerFire
  | Resolve nat reply
  | MarkerClick nat
  | MapClick latlng
  | RouteBtnClick "string option"
  | ReportBtnClick "string option"

text \<open>
  One event of the event loop. \<open>Render p\<close> is a commit with the props \<open>p\<close>; a re-render
  with the same props (the one \<^verbatim>\<open>setZoomLevel\<close> causes) is \<open>Render\<close> of the current
  props. \<open>Resolve i r\<close> is the answer \<open>r\<close> to the request of attempt \<open>i\<close>. Timers of
  equal delay fire in the order they were armed, so \<open>TimerFire\<close> is the oldest pending
  timer of \<^verbatim>\<open>popupclose\<close>; an open that comes before the timer of a close fires is an
  open within the debounce window of that close. The map raises events while it exists;
  of its own calls only \<^verbatim>\<open>fitBounds\<close> throws, on bounds that are not valid.
\<close>

fun step :: "event \<Rightarrow> mapview \<Rightarrow> mapview" where
  "step (Render p) s = (if mounted s then commit False p True s else s)"
| "step Unmount s = (if mounted s then unmount s else s)"
| "step PopupOpen s = (if widget s then popupopen s else s)"
| "step PopupClose s = (if widget s then popupclose s else s)"
| "step TimerFire s =
     (if 0 < timers s then deselectTimeout (s\<lparr>timers := timers s - 1\<rparr>) else s)"
| "step (Resolve i r) s = resolve i r s"
| "step (MarkerClick k) s =
     (case clusterGroupRef s of
        Some ms \<Rightarrow>
          if widget s \<and> k < length ms
          then s\<lparr>signals := signals s @ markerClick (ms ! k)\<rparr> else s
      | None \<Rightarrow> s)"
| "step (MapClick c) s = (if widget s then mapClick c s else s)"
| "step (RouteBtnClick a) s = (if widget s then routeBtnClick a s else s)"
| "step (ReportBtnClick a) s = (if widget s then reportBtnClick a s else s)"

fun run :: "event list \<Rightarrow> mapview \<Rightarrow> mapview" where
  "run [] s = s"
| "run (e # es) s = run es (step e s)"

section \<open>Auxiliary notions\<close>

text \<open>
  What the user-location effect and the centering effect append to the view commands,
  what the cleanup of the route effect does to the attempts, and what removing the
  route layer does to the layers of the map.
\<close>

definition userFlight :: "props \<Rightarrow> bool \<Rightarrow> latlng option \<Rightarrow> view_cmd list" where
  "userFlight p mi um =
     (case userLocation p of
        Some (_, u) \<Rightarrow>
          if mi \<and> um = None \<and> selectedStation p = None
          then [FlyTo (lat u, lng u) 14 None] else []
      | None \<Rightarrow> [])"

definition centerFlight :: "props \<Rightarrow> bool \<Rightarrow> view_cmd list" where
  "centerFlight p mi =
     (case selectedStation p of
        Some (_, st) \<Rightarrow>
          if mi \<and> \<not> showRoute p \<and> \<not> isPickingLocation p
          then [FlyTo (lat (st_location st), lng (st_location st)) 16 (Some (3 / 2))] else []
      | None \<Rightarrow> [])"

definition cancelCurrent :: "nat option \<Rightarrow> attempt list \<Rightarrow> attempt list" where
  "cancelCurrent c as = (case c of Some i \<Rightarrow> cancel i as | None \<Rightarrow> as)"

definition dropLayer :: "overlay option \<Rightarrow> overlay list \<Rightarrow> overlay list" where
  "dropLayer r ls = (case r of Some l \<Rightarrow> removeAll l ls | None \<Rightarrow> ls)"

text \<open>The view commands that fit the view to a route, and those that centre on a station.\<close>

fun isFit :: "view_cmd \<Rightarrow> bool" where
  "isFit (FitBounds _ _) = True"
| "isFit _ = False"

fun isCenter :: "view_cmd \<Rightarrow> bool" where
  "isCenter (FlyTo _ _ (Some _)) = True"
| "isCenter _ = False"

text \<open>
  The overlays that the answer \<open>r\<close> to attempt \<open>i\<close> makes \<^verbatim>\<open>fetchRoute\<close> attach, in the
  order it attaches them, and whether the request of an attempt is unanswered.
\<close>

definition draws :: "nat \<Rightarrow> reply \<Rightarrow> mapview \<Rightarrow> overlay list" where
  "draws i r s =
     (if i < length (attempts s) \<and> \<not> isCancelled (attempts s ! i) then
        (case fetch (attempts s ! i) of
           InFlight a b \<Rightarrow>
             (case r of
                Failed \<Rightarrow> [\<lparr>path = [a, b], style = Dashed\<rparr>]
              | Parsed rs \<Rightarrow>
                  (case rs of
                     Some (Some cs # _) \<Rightarrow>
                       if cs = [] \<and> \<not> hasFittedRouteRef s
                       then [\<lparr>path = [], style = Solid\<rparr>, \<lparr>path = [a, b], style = Dashed\<rparr>]
                       else [\<lparr>path = map (\<lambda>(x, y). (y, x)) cs, style = Solid\<rparr>]
                   | Some (None # _) \<Rightarrow> [\<lparr>path = [a, b], style = Dashed\<rparr>]
                   | _ \<Rightarrow> []))
         | _ \<Rightarrow> [])
      else [])"

definition inFlight :: "attempt \<Rightarrow> bool" where
  "inFlight a = (case fetch a of InFlight _ _ \<Rightarrow> True | _ \<Rightarrow> False)"

text \<open>
  The events that run the cleanup of the route effect: unmounting, and a commit in which
  an entry of its dependency array changed.
\<close>

fun tearsDown :: "event \<Rightarrow> mapview \<Rightarrow> bool" where
  "tearsDown (Render p) s = (mounted s \<and> routeDeps p True \<noteq> routeDeps (cur s) (mapInstance s))"
| "tearsDown Unmount s = mounted s"
| "tearsDown _ s = False"

definition routeView :: "mapview \<Rightarrow> overlay list \<times> overlay option \<times> view_cmd list \<times> bool" where
  "routeView s = (layers s, routeLayerRef s, views s, hasFittedRouteRef s)"

text \<open>The events raised by the map and its popups.\<close>

fun isUi :: "event \<Rightarrow> bool" where
  "isUi (Render _) = False"
| "isUi Unmount = False"
| "isUi (Resolve _ _) = False"
| "isUi _ = True"

text \<open>
  The invariant of the route effect: every attempt but the one whose cleanup is
  registered is cancelled; that one is the last attempt; after unmounting no cleanup is
  registered.
\<close>

definition route_inv :: "mapview \<Rightarrow> bool" where
  "route_inv s \<longleftrightarrow>
     (\<forall>i < length (attempts s). routeCleanup s \<noteq> Some i \<longrightarrow> isCancelled (attempts s ! i)) \<and>
     (\<forall>i. routeCleanup s = Some i \<longrightarrow> Suc i = length (attempts s)) \<and>
     (\<not> mounted s \<longrightarrow> routeCleanup s = None)"

text \<open>
  The events that reset the fitted flag: a commit in which \<^verbatim>\<open>routeDestination\<close> or
  \<^verbatim>\<open>showRoute\<close> changed. A run of events none of which does.
\<close>

fun resetsFit :: "event \<Rightarrow> mapview \<Rightarrow> bool" where
  "resetsFit (Render p) s = (mounted s \<and> fittedDeps p \<noteq> fittedDeps (cur s))"
| "resetsFit _ s = False"

fun noReset :: "event list \<Rightarrow> mapview \<Rightarrow> bool" where
  "noReset [] s = True"
| "noReset (e # es) s = (\<not> resetsFit e s \<and> noReset es (step e s))"

text \<open>
  The invariant of the other effects: the map exists while the component is mounted;
  the click listener of the picking effect is registered exactly in picking mode, with
  the current handler; the markers of the cluster group are those of the current props,
  up to the selection handler they closed over; the handler refs hold the current
  handlers.
\<close>

definition ui_inv :: "mapview \<Rightarrow> bool" where
  "ui_inv s \<longleftrightarrow>
     widget s = mounted s \<and>
     (mounted s \<longrightarrow>
        mapInstance s \<and>
        listeners s = (if isPickingLocation (cur s) then [onLocationPicked (cur s)] else []) \<and>
        pickCleanup s =
          (if isPickingLocation (cur s) then Some (onLocationPicked (cur s)) else None) \<and>
        (\<exists>h. clusterGroupRef s =
               Some (map (markerFor ((cur s)\<lparr>onStationSelect := h\<rparr>)) (snd (stations (cur s))))) \<and>
        onCreateRouteRef s = onCreateRoute (cur s) \<and>
        onRemoveRouteRef s = onRemoveRoute (cur s) \<and>
        onReportStatusRef s = onReportStatus (cur s) \<and>
        onDeselectRef s = onDeselect (cur s))"

section \<open>Scenarios\<close>

text \<open>
  The station and the props of the scenarios of the specification: one bus station at
  (41.0, 29.0), the user at (41.01, 29.01).
\<close>

definition station1 :: station where
  "station1 = \<lparr>st_id = ''1'', st_name = ''Taksim'', st_type = ''bus'', st_capacity = 10,
               st_available = 3, st_status = ''active'',
               st_location = \<lparr>lat = 41, lng = 29\<rparr>\<rparr>"

text \<open>Scenario A: nothing selected, no route.\<close>

definition propsA :: props where
  "propsA = \<lparr>stations = (0, [station1]), userLocation = None, selectedStation = None,
             routeDestination = None, onStationSelect = 10, onDeselect = Some 11,
             showRoute = False, isPickingLocation = False, onLocationPicked = Some 12,
             onCreateRoute = Some 13, onRemoveRoute = None, onReportStatus = Some 15\<rparr>"

text \<open>Scenario C: station 1 selected and routed to, the user located.\<close>

definition propsC :: props where
  "propsC = propsA\<lparr>userLocation := Some (1, \<lparr>lat = 41.01, lng = 29.01\<rparr>),
                   selectedStation := Some (2, station1),
                   routeDestination := Some (2, station1), showRoute := True\<rparr>"

text \<open>Scenario C after the user moved.\<close>

definition propsMoved :: props where
  "propsMoved = propsC\<lparr>userLocation := Some (3, \<lparr>lat = 41.02, lng = 29.02\<rparr>)\<rparr>"

text \<open>Scenario C after the route was ended, and scenario A in picking mode.\<close>

definition propsEnded :: props where
  "propsEnded = propsC\<lparr>showRoute := False\<rparr>"

text \<open>
  Scenario C with the same station passed as a fresh object, scenario B (station 1
  selected, no route), and a reply whose first route has no coordinates.
\<close>

definition propsFresh :: props where
  "propsFresh = propsC\<lparr>routeDestination := Some (5, station1)\<rparr>"

definition propsB :: props where
  "propsB = propsA\<lparr>selectedStation := Some (2, station1)\<rparr>"

definition emptyRoute :: reply where
  "emptyRoute = Parsed (Some [Some []])"

definition propsPicking :: props where
  "propsPicking = propsA\<lparr>isPickingLocation := True\<rparr>"

section \<open>What one effect changes\<close>

text \<open>
  Each effect of a commit runs under its dependency test. The lemmas of this section say,
  field by field, what such a guarded effect leaves alone and what it writes.
\<close>

lemma refsEffect_keeps [simp]:
  "mounted (whenD d refsEffect s) = mounted s"
  "cur (whenD d refsEffect s) = cur s"
  "mapInstance (whenD d refsEffect s) = mapInstance s"
  "isSwitchingPopup (whenD d refsEffect s) = isSwitchingPopup s"
  "hasFittedRouteRef (whenD d refsEffect s) = hasFittedRouteRef s"
  "routeLayerRef (whenD d refsEffect s) = routeLayerRef s"
  "userMarkerRef (whenD d refsEffect s) = userMarkerRef s"
  "clusterGroupRef (whenD d refsEffect s) = clusterGroupRef s"
  "pickCleanup (whenD d refsEffect s) = pickCleanup s"
  "routeCleanup (whenD d refsEffect s) = routeCleanup s"
  "attempts (whenD d refsEffect s) = attempts s"
  "widget (whenD d refsEffect s) = widget s"
  "layers (whenD d refsEffect s) = layers s"
  "listeners (whenD d refsEffect s) = listeners s"
  "views (whenD d refsEffect s) = views s"
  "timers (whenD d refsEffect s) = timers s"
  "signals (whenD d refsEffect s) = signals s"
  by (simp_all add: whenD_def refsEffect_def)

lemma initEffect_keeps [simp]:
  "mounted (whenD d initEffect s) = mounted s"
  "cur (whenD d initEffect s) = cur s"
  "mapInstance (whenD d initEffect s) = mapInstance s"
  "onCreateRouteRef (whenD d initEffect s) = onCreateRouteRef s"
  "onRemoveRouteRef (whenD d initEffect s) = onRemoveRouteRef s"
  "onReportStatusRef (whenD d initEffect s) = onReportStatusRef s"
  "onDeselectRef (whenD d initEffect s) = onDeselectRef s"
  "isSwitchingPopup (whenD d initEffect s) = isSwitchingPopup s"
  "hasFittedRouteRef (whenD d initEffect s) = hasFittedRouteRef s"
  "routeLayerRef (whenD d initEffect s) = routeLayerRef s"
  "userMarkerRef (whenD d initEffect s) = userMarkerRef s"
  "pickCleanup (whenD d initEffect s) = pickCleanup s"
  "routeCleanup (whenD d initEffect s) = routeCleanup s"
  "attempts (whenD d initEffect s) = attempts s"
  "layers (whenD d initEffect s) = layers s"
  "listeners (whenD d initEffect s) = listeners s"
  "timers (whenD d initEffect s) = timers s"
  "signals (whenD d initEffect s) = signals s"
  by (simp_all add: whenD_def initEffect_def)

lemma pickingEffect_keeps [simp]:
  "mounted (whenD d pickingEffect s) = mounted s"
  "cur (whenD d pickingEffect s) = cur s"
  "mapInstance (whenD d pickingEffect s) = mapInstance s"
  "onCreateRouteRef (whenD d pickingEffect s) = onCreateRouteRef s"
  "onRemoveRouteRef (whenD d pickingEffect s) = onRemoveRouteRef s"
  "onReportStatusRef (whenD d pickingEffect s) = onReportStatusRef s"
  "onDeselectRef (whenD d pickingEffect s) = onDeselectRef s"
  "isSwitchingPopup (whenD d pickingEffect s) = isSwitchingPopup s"
  "hasFittedRouteRef (whenD d pickingEffect s) = hasFittedRouteRef s"
  "routeLayerRef (whenD d pickingEffect s) = routeLayerRef s"
  "userMarkerRef (whenD d pickingEffect s) = userMarkerRef s"
  "clusterGroupRef (whenD d pickingEffect s) = clusterGroupRef s"
  "routeCleanup (whenD d pickingEffect s) = routeCleanup s"
  "attempts (whenD d pickingEffect s) = attempts s"
  "widget (whenD d pickingEffect s) = widget s"
  "layers (whenD d pickingEffect s) = layers s"
  "views (whenD d pickingEffect s) = views s"
  "timers (whenD d pickingEffect s) = timers s"
  "signals (whenD d pickingEffect s) = signals s"
  by (simp_all add: whenD_def pickingEffect_def)

lemma pickingTeardown_keeps [simp]:
  "mounted (whenD d pickingTeardown s) = mounted s"
  "cur (whenD d pickingTeardown s) = cur s"
  "mapInstance (whenD d pickingTeardown s) = mapInstance s"
  "onCreateRouteRef (whenD d pickingTeardown s) = onCreateRouteRef s"
  "onRemoveRouteRef (whenD d pickingTeardown s) = onRemoveRouteRef s"
  "onReportStatusRef (whenD d pickingTeardown s) = onReportStatusRef s"
  "onDeselectRef (whenD d pickingTeardown s) = onDeselectRef s"
  "isSwitchingPopup (whenD d pickingTeardown s) = isSwitchingPopup s"
  "hasFittedRouteRef (whenD d pickingTeardown s) = hasFittedRouteRef s"
  "routeLayerRef (whenD d pickingTeardown s) = routeLayerRef s"
  "userMarkerRef (whenD d pickingTeardown s) = userMarkerRef s"
  "clusterGroupRef (whenD d pickingTeardown s) = clusterGroupRef s"
  "routeCleanup (whenD d pickingTeardown s) = routeCleanup s"
  "attempts (whenD d pickingTeardown s) = attempts s"
  "widget (whenD d pickingTeardown s) = widget s"
  "layers (whenD d pickingTeardown s) = layers s"
  "views (whenD d pickingTeardown s) = views s"
  "timers (whenD d pickingTeardown s) = timers s"
  "signals (whenD d pickingTeardown s) = signals s"
  by (simp_all add: whenD_def pickingTeardown_def split: option.splits)

lemma userLocationEffect_keeps [simp]:
  "mounted (whenD d userLocationEffect s) = mounted s"
  "cur (whenD d userLocationEffect s) = cur s"
  "mapInstance (whenD d userLocationEffect s) = mapInstance s"
  "onCreateRouteRef (whenD d userLocationEffect s) = onCreateRouteRef s"
  "onRemoveRouteRef (whenD d userLocationEffect s) = onRemoveRouteRef s"
  "onReportStatusRef (whenD d userLocationEffect s) = onReportStatusRef s"
  "onDeselectRef (whenD d userLocationEffect s) = onDeselectRef s"
  "isSwitchingPopup (whenD d userLocationEffect s) = isSwitchingPopup s"
  "hasFittedRouteRef (whenD d userLocationEffect s) = hasFittedRouteRef s"
  "routeLayerRef (whenD d userLocationEffect s) = routeLayerRef s"
  "clusterGroupRef (whenD d userLocationEffect s) = clusterGroupRef s"
  "pickCleanup (whenD d userLocationEffect s) = pickCleanup s"
  "routeCleanup (whenD d userLocationEffect s) = routeCleanup s"
  "attempts (whenD d userLocationEffect s) = attempts s"
  "widget (whenD d userLocationEffect s) = widget s"
  "layers (whenD d userLocationEffect s) = layers s"
  "listeners (whenD d userLocationEffect s) = listeners s"
  "timers (whenD d userLocationEffect s) = timers s"
  "signals (whenD d userLocationEffect s) = signals s"
  by (simp_all add: whenD_def userLocationEffect_def Let_def split: option.splits prod.splits)

lemma stationsEffect_keeps [simp]:
  "mounted (whenD d stationsEffect s) = mounted s"
  "cur (whenD d stationsEffect s) = cur s"
  "mapInstance (whenD d stationsEffect s) = mapInstance s"
  "onCreateRouteRef (whenD d stationsEffect s) = onCreateRouteRef s"
  "onRemoveRouteRef (whenD d stationsEffect s) = onRemoveRouteRef s"
  "onReportStatusRef (whenD d stationsEffect s) = onReportStatusRef s"
  "onDeselectRef (whenD d stationsEffect s) = onDeselectRef s"
  "isSwitchingPopup (whenD d stationsEffect s) = isSwitchingPopup s"
  "hasFittedRouteRef (whenD d stationsEffect s) = hasFittedRouteRef s"
  "routeLayerRef (whenD d stationsEffect s) = routeLayerRef s"
  "userMarkerRef (whenD d stationsEffect s) = userMarkerRef s"
  "pickCleanup (whenD d stationsEffect s) = pickCleanup s"
  "routeCleanup (whenD d stationsEffect s) = routeCleanup s"
  "attempts (whenD d stationsEffect s) = attempts s"
  "widget (whenD d stationsEffect s) = widget s"
  "layers (whenD d stationsEffect s) = layers s"
  "listeners (whenD d stationsEffect s) = listeners s"
  "views (whenD d stationsEffect s) = views s"
  "timers (whenD d stationsEffect s) = timers s"
  "signals (whenD d stationsEffect s) = signals s"
  by (simp_all add: whenD_def stationsEffect_def)

lemma fittedEffect_keeps [simp]:
  "mounted (whenD d fittedEffect s) = mounted s"
  "cur (whenD d fittedEffect s) = cur s"
  "mapInstance (whenD d fittedEffect s) = mapInstance s"
  "onCreateRouteRef (whenD d fittedEffect s) = onCreateRouteRef s"
  "onRemoveRouteRef (whenD d fittedEffect s) = onRemoveRouteRef s"
  "onReportStatusRef (whenD d fittedEffect s) = onReportStatusRef s"
  "onDeselectRef (whenD d fittedEffect s) = onDeselectRef s"
  "isSwitchingPopup (whenD d fittedEffect s) = isSwitchingPopup s"
  "routeLayerRef (whenD d fittedEffect s) = routeLayerRef s"
  "userMarkerRef (whenD d fittedEffect s) = userMarkerRef s"
  "clusterGroupRef (whenD d fittedEffect s) = clusterGroupRef s"
  "pickCleanup (whenD d fittedEffect s) = pickCleanup s"
  "routeCleanup (whenD d fittedEffect s) = routeCleanup s"
  "attempts (whenD d fittedEffect s) = attempts s"
  "widget (whenD d fittedEffect s) = widget s"
  "layers (whenD d fittedEffect s) = layers s"
  "listeners (whenD d fittedEffect s) = listeners s"
  "views (whenD d fittedEffect s) = views s"
  "timers (whenD d fittedEffect s) = timers s"
  "signals (whenD d fittedEffect s) = signals s"
  by (simp_all add: whenD_def fittedEffect_def)

lemma routeEffect_keeps [simp]:
  "mounted (whenD d routeEffect s) = mounted s"
  "cur (whenD d routeEffect s) = cur s"
  "mapInstance (whenD d routeEffect s) = mapInstance s"
  "onCreateRouteRef (whenD d routeEffect s) = onCreateRouteRef s"
  "onRemoveRouteRef (whenD d routeEffect s) = onRemoveRouteRef s"
  "onReportStatusRef (whenD d routeEffect s) = onReportStatusRef s"
  "onDeselectRef (whenD d routeEffect s) = onDeselectRef s"
  "isSwitchingPopup (whenD d routeEffect s) = isSwitchingPopup s"
  "hasFittedRouteRef (whenD d routeEffect s) = hasFittedRouteRef s"
  "userMarkerRef (whenD d routeEffect s) = userMarkerRef s"
  "clusterGroupRef (whenD d routeEffect s) = clusterGroupRef s"
  "pickCleanup (whenD d routeEffect s) = pickCleanup s"
  "widget (whenD d routeEffect s) = widget s"
  "listeners (whenD d routeEffect s) = listeners s"
  "views (whenD d routeEffect s) = views s"
  "timers (whenD d routeEffect s) = timers s"
  "signals (whenD d routeEffect s) = signals s"
  by (simp_all add: whenD_def routeEffect_def removeRouteLayer_def Let_def split: option.splits)

lemma routeTeardown_keeps [simp]:
  "mounted (whenD d routeTeardown s) = mounted s"
  "cur (whenD d routeTeardown s) = cur s"
  "mapInstance (whenD d routeTeardown s) = mapInstance s"
  "onCreateRouteRef (whenD d routeTeardown s) = onCreateRouteRef s"
  "onRemoveRouteRef (whenD d routeTeardown s) = onRemoveRouteRef s"
  "onReportStatusRef (whenD d routeTeardown s) = onReportStatusRef s"
  "onDeselectRef (whenD d routeTeardown s) = onDeselectRef s"
  "isSwitchingPopup (whenD d routeTeardown s) = isSwitchingPopup s"
  "hasFittedRouteRef (whenD d routeTeardown s) = hasFittedRouteRef s"
  "userMarkerRef (whenD d routeTeardown s) = userMarkerRef s"
  "clusterGroupRef (whenD d routeTeardown s) = clusterGroupRef s"
  "pickCleanup (whenD d routeTeardown s) = pickCleanup s"
  "widget (whenD d routeTeardown s) = widget s"
  "listeners (whenD d routeTeardown s) = listeners s"
  "views (whenD d routeTeardown s) = views s"
  "timers (whenD d routeTeardown s) = timers s"
  "signals (whenD d routeTeardown s) = signals s"
  by (simp_all add: whenD_def routeTeardown_def removeRouteLayer_def split: option.splits)

lemma centerEffect_keeps [simp]:
  "mounted (whenD d centerEffect s) = mounted s"
  "cur (whenD d centerEffect s) = cur s"
  "mapInstance (whenD d centerEffect s) = mapInstance s"
  "onCreateRouteRef (whenD d centerEffect s) = onCreateRouteRef s"
  "onRemoveRouteRef (whenD d centerEffect s) = onRemoveRouteRef s"
  "onReportStatusRef (whenD d centerEffect s) = onReportStatusRef s"
  "onDeselectRef (whenD d centerEffect s) = onDeselectRef s"
  "isSwitchingPopup (whenD d centerEffect s) = isSwitchingPopup s"
  "hasFittedRouteRef (whenD d centerEffect s) = hasFittedRouteRef s"
  "routeLayerRef (whenD d centerEffect s) = routeLayerRef s"
  "userMarkerRef (whenD d centerEffect s) = userMarkerRef s"
  "clusterGroupRef (whenD d centerEffect s) = clusterGroupRef s"
  "pickCleanup (whenD d centerEffect s) = pickCleanup s"
  "routeCleanup (whenD d centerEffect s) = routeCleanup s"
  "attempts (whenD d centerEffect s) = attempts s"
  "widget (whenD d centerEffect s) = widget s"
  "layers (whenD d centerEffect s) = layers s"
  "listeners (whenD d centerEffect s) = listeners s"
  "timers (whenD d centerEffect s) = timers s"
  "signals (whenD d centerEffect s) = signals s"
  by (simp_all add: whenD_def centerEffect_def split: option.splits prod.splits)


lemma refsEffect_writes [simp]:
  "onCreateRouteRef (whenD d refsEffect s) = (if d then onCreateRoute (cur s) else onCreateRouteRef s)"
  "onRemoveRouteRef (whenD d refsEffect s) = (if d then onRemoveRoute (cur s) else onRemoveRouteRef s)"
  "onReportStatusRef (whenD d refsEffect s) = (if d then onReportStatus (cur s) else onReportStatusRef s)"
  "onDeselectRef (whenD d refsEffect s) = (if d then onDeselect (cur s) else onDeselectRef s)"
  by (simp_all add: whenD_def refsEffect_def)

lemma initEffect_writes [simp]:
  "widget (whenD d initEffect s) = ((d \<and> \<not> mapInstance s) \<or> widget s)"
  "clusterGroupRef (whenD d initEffect s) =
     (if d \<and> \<not> mapInstance s then Some [] else clusterGroupRef s)"
  "views (whenD d initEffect s) =
     views s @ (if d \<and> \<not> mapInstance s
                then [SetView (case userLocation (cur s) of
                                 Some (_, u) \<Rightarrow> (lat u, lng u)
                               | None \<Rightarrow> (41.0082, 28.9784)) 13]
                else [])"
  by (simp_all add: whenD_def initEffect_def)

lemma pickingTeardown_writes [simp]:
  "listeners (whenD d pickingTeardown s) =
     (case pickCleanup s of
        Some h \<Rightarrow> if d then remove1 h (listeners s) else listeners s
      | None \<Rightarrow> listeners s)"
  "pickCleanup (whenD d pickingTeardown s) = (if d then None else pickCleanup s)"
  by (simp_all add: whenD_def pickingTeardown_def split: option.splits)

lemma pickingEffect_writes [simp]:
  "listeners (whenD d pickingEffect s) =
     listeners s @ (if d \<and> mapInstance s \<and> isPickingLocation (cur s)
                    then [onLocationPicked (cur s)] else [])"
  "pickCleanup (whenD d pickingEffect s) =
     (if d then (if mapInstance s \<and> isPickingLocation (cur s)
                 then Some (onLocationPicked (cur s)) else None)
      else pickCleanup s)"
  by (simp_all add: whenD_def pickingEffect_def)

lemma userLocationEffect_writes [simp]:
  "userMarkerRef (whenD d userLocationEffect s) =
     (case userLocation (cur s) of
        Some (_, u) \<Rightarrow> if d \<and> mapInstance s then Some (lat u, lng u) else userMarkerRef s
      | None \<Rightarrow> userMarkerRef s)"
  "views (whenD d userLocationEffect s) =
     views s @ (if d then userFlight (cur s) (mapInstance s) (userMarkerRef s) else [])"
  by (auto simp add: whenD_def userLocationEffect_def userFlight_def Let_def
      split: option.splits prod.splits)

lemma stationsEffect_writes [simp]:
  "clusterGroupRef (whenD d stationsEffect s) =
     (if d \<and> mapInstance s \<and> clusterGroupRef s \<noteq> None
      then Some (map (markerFor (cur s)) (snd (stations (cur s))))
      else clusterGroupRef s)"
  by (simp_all add: whenD_def stationsEffect_def)

lemma fittedEffect_writes [simp]:
  "hasFittedRouteRef (whenD d fittedEffect s) = (\<not> d \<and> hasFittedRouteRef s)"
  by (simp_all add: whenD_def fittedEffect_def)

lemma routeTeardown_writes [simp]:
  "attempts (whenD d routeTeardown s) =
     (if d then cancelCurrent (routeCleanup s) (attempts s) else attempts s)"
  "routeCleanup (whenD d routeTeardown s) = (if d then None else routeCleanup s)"
  "layers (whenD d routeTeardown s) =
     (if d \<and> routeCleanup s \<noteq> None then dropLayer (routeLayerRef s) (layers s) else layers s)"
  "routeLayerRef (whenD d routeTeardown s) =
     (if d \<and> routeCleanup s \<noteq> None then None else routeLayerRef s)"
  by (simp_all add: whenD_def routeTeardown_def removeRouteLayer_def cancelCurrent_def
      dropLayer_def split: option.splits)

lemma routeEffect_writes [simp]:
  "layers (whenD d routeEffect s) =
     (if d \<and> mapInstance s then dropLayer (routeLayerRef s) (layers s) else layers s)"
  "routeLayerRef (whenD d routeEffect s) = (if d \<and> mapInstance s then None else routeLayerRef s)"
  "attempts (whenD d routeEffect s) =
     attempts s @ (if d \<and> mapInstance s
                   then [\<lparr>isCancelled = False, fetch = startRoute (cur s)\<rparr>] else [])"
  "routeCleanup (whenD d routeEffect s) =
     (if d then (if mapInstance s then Some (length (attempts s)) else None)
      else routeCleanup s)"
  by (simp_all add: whenD_def routeEffect_def removeRouteLayer_def dropLayer_def Let_def
      split: option.splits)

lemma centerEffect_writes [simp]:
  "views (whenD d centerEffect s) =
     views s @ (if d then centerFlight (cur s) (mapInstance s) else [])"
  by (auto simp add: whenD_def centerEffect_def centerFlight_def split: option.splits prod.splits)

lemmas commit_defs = commit_def bodies_def teardowns_def

section \<open>The scenario state\<close>

lemma mountC:
  "mounted (mount propsC)" "mapInstance (mount propsC)" "widget (mount propsC)"
  "cur (mount propsC) = propsC"
  "layers (mount propsC) = []" "routeLayerRef (mount propsC) = None"
  "routeCleanup (mount propsC) = Some 0"
  "attempts (mount propsC) = [\<lparr>isCancelled = False, fetch = InFlight (41.01, 29.01) (41, 29)\<rparr>]"
  "hasFittedRouteRef (mount propsC) = False"
  "views (mount propsC) = [SetView (41.01, 29.01) 13]"
  "signals (mount propsC) = []" "timers (mount propsC) = 0"
  "isSwitchingPopup (mount propsC) = False"
  "onDeselectRef (mount propsC) = Some 11"
  "onCreateRouteRef (mount propsC) = Some 13"
  "onRemoveRouteRef (mount propsC) = None"
  "userMarkerRef (mount propsC) = Some (41.01, 29.01)"
  "listeners (mount propsC) = []"
  "clusterGroupRef (mount propsC) =
     Some [\<lparr>m_station = station1, m_at = (41, 29), m_icon = LargeIcon, m_action = ''remove'',
            m_autoOpen = True, m_picking = False, m_onSelect = 10\<rparr>]"
  by (simp_all add: mount_def commit_defs initial_def propsC_def propsA_def station1_def
      routeDeps_def centerDeps_def userDeps_def stationsDeps_def fittedDeps_def pickingDeps_def
      refsDeps_def cancelCurrent_def dropLayer_def startRoute_def userFlight_def centerFlight_def
      markerFor_def isSelected_def isDestination_def)

section \<open>Marker reconciliation\<close>

text \<open>
  C7. After a marker reconciliation (the stations effect, run while the map and its
  cluster group exist) the cluster group holds one marker per station, in the order of
  the station list; the markers with the large icon are as many as the stations that
  are selected or the destination, the point glyphs as many as the other stations, and
  a marker has the large icon exactly when its own station is selected or the
  destination.
\<close>

theorem highlighted_marker_count:
  "mapInstance s \<Longrightarrow> clusterGroupRef s \<noteq> None \<Longrightarrow>
   (\<exists>ms. clusterGroupRef (stationsEffect s) = Some ms \<and>
      map m_station ms = snd (stations (cur s)) \<and>
      length (filter (\<lambda>m. m_icon m = LargeIcon) ms) =
        length (filter (\<lambda>st. isSelected (cur s) st \<or> isDestination (cur s) st)
                  (snd (stations (cur s)))) \<and>
      length (filter (\<lambda>m. m_icon m = PointGlyph) ms) =
        length (filter (\<lambda>st. \<not> (isSelected (cur s) st \<or> isDestination (cur s) st))
                  (snd (stations (cur s)))) \<and>
      (\<forall>m \<in> set ms. m_icon m = LargeIcon \<longleftrightarrow>
          isSelected (cur s) (m_station m) \<or> isDestination (cur s) (m_station m)))"
proof -
  assume a: "mapInstance s" "clusterGroupRef s \<noteq> None"
  let ?p = "cur s"
  let ?ms = "map (markerFor ?p) (snd (stations ?p))"
  have 1: "clusterGroupRef (stationsEffect s) = Some ?ms"
    using a by (simp add: stationsEffect_def)
  have 2: "map m_station ?ms = snd (stations ?p)"
    by (induction "snd (stations ?p)") (simp_all add: markerFor_def Let_def comp_def)
  have 3: "length (filter (\<lambda>m. m_icon m = LargeIcon) (map (markerFor ?p) xs)) =
        length (filter (\<lambda>st. isSelected ?p st \<or> isDestination ?p st) xs)" for xs
    by (induction xs) (simp_all add: markerFor_def Let_def)
  have 4: "length (filter (\<lambda>m. m_icon m = PointGlyph) (map (markerFor ?p) xs)) =
        length (filter (\<lambda>st. \<not> (isSelected ?p st \<or> isDestination ?p st)) xs)" for xs
    by (induction xs) (simp_all add: markerFor_def Let_def)
  have 5: "\<forall>m \<in> set ?ms. m_icon m = LargeIcon \<longleftrightarrow>
          isSelected ?p (m_station m) \<or> isDestination ?p (m_station m)"
    by (auto simp add: markerFor_def Let_def)
  show ?thesis using 1 2 3 4 5 by blast
qed

theorem highlighted_marker_count_witness:
  "mapInstance (mount propsC) \<and> clusterGroupRef (mount propsC) \<noteq> None \<and>
   (\<exists>ms. clusterGroupRef (stationsEffect (mount propsC)) = Some ms \<and>
      length (filter (\<lambda>m. m_icon m = LargeIcon) ms) = 1 \<and>
      length (filter (\<lambda>m. m_icon m = PointGlyph) ms) = 0)"
proof -
  have a: "mapInstance (mount propsC)" "clusterGroupRef (mount propsC) \<noteq> None"
    by (simp_all add: mountC)
  have b: "snd (stations (cur (mount propsC))) = [station1]"
    by (simp only: mountC) (simp add: propsC_def propsA_def)
  have c: "isSelected (cur (mount propsC)) station1"
    by (simp only: mountC) (simp add: propsC_def propsA_def isSelected_def)
  show ?thesis
    using a highlighted_marker_count [OF a] b c by auto
qed

section \<open>The route request\<close>

text \<open>
  C2. In scenario C the request of attempt 0 is in flight. When it fails, or when the
  first route of the reply has no usable geometry, the dashed overlay between the user
  and the station is attached. When the reply is well formed and holds no route (an
  empty list of routes, or none at all), no overlay is attached and the view is left as
  it was: that reply is not treated as a failure.
\<close>

theorem empty_result_draws_nothing:
  "layers (step (Resolve 0 Failed) (mount propsC)) =
      [\<lparr>path = [(41.01, 29.01), (41, 29)], style = Dashed\<rparr>] \<and>
   layers (step (Resolve 0 (Parsed (Some [None]))) (mount propsC)) =
      [\<lparr>path = [(41.01, 29.01), (41, 29)], style = Dashed\<rparr>] \<and>
   layers (step (Resolve 0 (Parsed (Some []))) (mount propsC)) = [] \<and>
   layers (step (Resolve 0 (Parsed None)) (mount propsC)) = [] \<and>
   views (step (Resolve 0 (Parsed (Some []))) (mount propsC)) = views (mount propsC)"
  by (simp add: resolve_def settle_def catchBlock_def drawFallback_def fitOnce_def
      fitBounds_def addRouteLayer_def mountC Let_def)

section \<open>Popup lifecycle\<close>

text \<open>
  C4. A close followed by an open before its timer fires calls nothing, and a close with
  no open calls the deselection handler once: the debounce works on a single close.
  But let a popup close, another open, that one close and, before the timer of the
  second close is due, a popup open again: each of the two closes is followed by an
  open before its own timer fires, and still the timer of the first close finds the
  flag set by the second close and calls the deselection handler.
\<close>

theorem switch_close_still_deselects:
  "signals (run [PopupClose, PopupOpen, TimerFire] (mount propsC)) = [] \<and>
   signals (run [PopupClose, TimerFire] (mount propsC)) = [Deselected 11] \<and>
   signals (run [PopupClose, PopupOpen, PopupClose, TimerFire] (mount propsC)) =
     [Deselected 11] \<and>
   signals (run [PopupClose, PopupOpen, PopupClose, TimerFire, PopupOpen, TimerFire]
              (mount propsC)) = [Deselected 11]"
  by (simp add: popupclose_def popupopen_def deselectTimeout_def mountC)

section \<open>Commits, unmounting and the answer to a request, field by field\<close>

lemma resolve_keeps [simp]:
  "mounted (resolve i r s) = mounted s"
  "cur (resolve i r s) = cur s"
  "mapInstance (resolve i r s) = mapInstance s"
  "onCreateRouteRef (resolve i r s) = onCreateRouteRef s"
  "onRemoveRouteRef (resolve i r s) = onRemoveRouteRef s"
  "onReportStatusRef (resolve i r s) = onReportStatusRef s"
  "onDeselectRef (resolve i r s) = onDeselectRef s"
  "isSwitchingPopup (resolve i r s) = isSwitchingPopup s"
  "userMarkerRef (resolve i r s) = userMarkerRef s"
  "clusterGroupRef (resolve i r s) = clusterGroupRef s"
  "pickCleanup (resolve i r s) = pickCleanup s"
  "routeCleanup (resolve i r s) = routeCleanup s"
  "widget (resolve i r s) = widget s"
  "listeners (resolve i r s) = listeners s"
  "timers (resolve i r s) = timers s"
  "signals (resolve i r s) = signals s"
  by (simp_all add: resolve_def settle_def catchBlock_def drawRoute_def drawFallback_def
      fitOnce_def fitBounds_def addRouteLayer_def Let_def
      split: fetch.splits reply.splits option.splits list.splits)

lemma resolve_writes:
  "attempts (resolve i r s) =
     (if i < length (attempts s) \<and> inFlight (attempts s ! i)
      then (attempts s)[i := (attempts s ! i)\<lparr>fetch := Settled\<rparr>] else attempts s)"
  "layers (resolve i r s) = layers s @ draws i r s"
  "routeLayerRef (resolve i r s) =
     (if draws i r s = [] then routeLayerRef s else Some (last (draws i r s)))"
  "views (resolve i r s) =
     views s @ (if draws i r s = [] \<or> hasFittedRouteRef s then []
                else [FitBounds (path (last (draws i r s))) (50, 50)])"
  "hasFittedRouteRef (resolve i r s) = (hasFittedRouteRef s \<or> draws i r s \<noteq> [])"
  by (simp_all add: resolve_def settle_def catchBlock_def drawRoute_def drawFallback_def
      fitOnce_def fitBounds_def addRouteLayer_def draws_def inFlight_def Let_def
      split: fetch.splits reply.splits option.splits list.splits)

lemma unmount_alt:
  "unmount s =
     (whenD True routeTeardown (whenD True pickingTeardown (initTeardown s)))\<lparr>mounted := False\<rparr>"
  by (simp add: unmount_def whenD_def)

lemma unmount_fields:
  "cur (unmount s) = cur s" "mapInstance (unmount s) = mapInstance s"
  "mounted (unmount s) = False" "widget (unmount s) = False"
  "views (unmount s) = views s" "hasFittedRouteRef (unmount s) = hasFittedRouteRef s"
  "signals (unmount s) = signals s"
  "routeCleanup (unmount s) = None" "layers (unmount s) = []"
  "attempts (unmount s) = cancelCurrent (routeCleanup s) (attempts s)"
  "routeLayerRef (unmount s) = (if routeCleanup s \<noteq> None then None else routeLayerRef s)"
  by (simp_all add: unmount_alt initTeardown_def dropLayer_def split: option.splits)

lemma commit_fields:
  "cur (commit first p mi s) = p" "mapInstance (commit first p mi s) = mi"
  "mounted (commit first p mi s) = mounted s" "signals (commit first p mi s) = signals s"
  "timers (commit first p mi s) = timers s"
  "isSwitchingPopup (commit first p mi s) = isSwitchingPopup s"
  by (simp_all add: commit_defs)

lemma commit_views:
  "views (commit False p True s) =
     views s @ (if userDeps p True \<noteq> userDeps (cur s) (mapInstance s)
                then userFlight p True (userMarkerRef s) else [])
             @ (if centerDeps p True \<noteq> centerDeps (cur s) (mapInstance s)
                then centerFlight p True else [])"
  by (simp add: commit_defs)

lemma commit_fitted:
  "hasFittedRouteRef (commit False p True s) =
     (fittedDeps p = fittedDeps (cur s) \<and> hasFittedRouteRef s)"
  by (simp add: commit_defs)

lemma commit_route:
  "attempts (commit False p True s) =
     (if routeDeps p True \<noteq> routeDeps (cur s) (mapInstance s)
      then cancelCurrent (routeCleanup s) (attempts s) @
             [\<lparr>isCancelled = False, fetch = startRoute p\<rparr>]
      else attempts s)"
  "routeCleanup (commit False p True s) =
     (if routeDeps p True \<noteq> routeDeps (cur s) (mapInstance s)
      then Some (length (cancelCurrent (routeCleanup s) (attempts s))) else routeCleanup s)"
  "routeLayerRef (commit False p True s) =
     (if routeDeps p True \<noteq> routeDeps (cur s) (mapInstance s) then None else routeLayerRef s)"
  "layers (commit False p True s) =
     (if routeDeps p True \<noteq> routeDeps (cur s) (mapInstance s)
      then dropLayer (if routeCleanup s \<noteq> None then None else routeLayerRef s)
             (if routeCleanup s \<noteq> None then dropLayer (routeLayerRef s) (layers s) else layers s)
      else layers s)"
  by (simp_all add: commit_defs)

lemma length_cancel [simp]: "length (cancel i as) = length as"
  by (simp add: cancel_def)

lemma length_cancelCurrent [simp]: "length (cancelCurrent c as) = length as"
  by (simp add: cancelCurrent_def split: option.splits)

lemma nth_cancel:
  "j < length as \<Longrightarrow> isCancelled (cancel i as ! j) = (j = i \<or> isCancelled (as ! j))"
  "j < length as \<Longrightarrow> fetch (cancel i as ! j) = fetch (as ! j)"
  by (auto simp add: cancel_def nth_list_update)

lemma nth_cancelCurrent:
  "j < length as \<Longrightarrow> isCancelled (cancelCurrent c as ! j) = (c = Some j \<or> isCancelled (as ! j))"
  "j < length as \<Longrightarrow> fetch (cancelCurrent c as ! j) = fetch (as ! j)"
  by (auto simp add: cancelCurrent_def nth_cancel split: option.splits)

section \<open>The invariant of the route effect\<close>

lemma route_inv_mount: "route_inv (mount p)"
  by (simp add: route_inv_def mount_def commit_defs initial_def cancelCurrent_def)

lemma route_inv_commit: "route_inv s \<Longrightarrow> mounted s \<Longrightarrow> route_inv (commit False p True s)"
  unfolding route_inv_def commit_route commit_fields
  by (auto simp add: nth_append nth_cancelCurrent less_Suc_eq split: if_splits option.splits)

lemma route_inv_unmount: "route_inv s \<Longrightarrow> route_inv (unmount s)"
  unfolding route_inv_def unmount_fields
  by (auto simp add: nth_cancelCurrent)

lemma draws_current:
  "route_inv s \<Longrightarrow> draws i r s \<noteq> [] \<Longrightarrow>
     routeCleanup s = Some i \<and> Suc i = length (attempts s)"
  by (auto simp add: route_inv_def draws_def split: if_splits)

lemma route_inv_resolve: "route_inv s \<Longrightarrow> route_inv (resolve i r s)"
  unfolding route_inv_def resolve_writes resolve_keeps
  by (auto simp add: nth_list_update)

lemma step_ui_keeps:
  "isUi e \<Longrightarrow> layers (step e s) = layers s"
  "isUi e \<Longrightarrow> routeLayerRef (step e s) = routeLayerRef s"
  "isUi e \<Longrightarrow> attempts (step e s) = attempts s"
  "isUi e \<Longrightarrow> routeCleanup (step e s) = routeCleanup s"
  "isUi e \<Longrightarrow> mounted (step e s) = mounted s"
  "isUi e \<Longrightarrow> cur (step e s) = cur s"
  "isUi e \<Longrightarrow> mapInstance (step e s) = mapInstance s"
  "isUi e \<Longrightarrow> views (step e s) = views s"
  "isUi e \<Longrightarrow> hasFittedRouteRef (step e s) = hasFittedRouteRef s"
  "isUi e \<Longrightarrow> widget (step e s) = widget s"
  "isUi e \<Longrightarrow> listeners (step e s) = listeners s"
  "isUi e \<Longrightarrow> pickCleanup (step e s) = pickCleanup s"
  "isUi e \<Longrightarrow> clusterGroupRef (step e s) = clusterGroupRef s"
  "isUi e \<Longrightarrow> onCreateRouteRef (step e s) = onCreateRouteRef s"
  "isUi e \<Longrightarrow> onRemoveRouteRef (step e s) = onRemoveRouteRef s"
  "isUi e \<Longrightarrow> onReportStatusRef (step e s) = onReportStatusRef s"
  "isUi e \<Longrightarrow> onDeselectRef (step e s) = onDeselectRef s"
  "isUi e \<Longrightarrow> userMarkerRef (step e s) = userMarkerRef s"
  by (cases e; simp add: popupopen_def popupclose_def deselectTimeout_def mapClick_def
      routeBtnClick_def reportBtnClick_def split: option.splits prod.splits)+

lemma route_inv_step: "route_inv s \<Longrightarrow> route_inv (step e s)"
proof (cases "isUi e")
  case True
  assume "route_inv s"
  then show ?thesis
    by (simp add: route_inv_def step_ui_keeps [OF True])
next
  case False
  assume "route_inv s"
  with False show ?thesis
    by (cases e) (simp_all add: route_inv_commit route_inv_unmount route_inv_resolve)
qed

lemma route_inv_run: "route_inv s \<Longrightarrow> route_inv (run evs s)"
  by (induction evs arbitrary: s) (simp_all add: route_inv_step)

lemma route_inv_reachable: "route_inv (run evs (mount p))"
  by (simp add: route_inv_run route_inv_mount)

lemma teardown_cancels:
  "route_inv s \<Longrightarrow> tearsDown e s \<Longrightarrow> i < length (attempts s) \<Longrightarrow>
     i < length (attempts (step e s)) \<and> isCancelled (attempts (step e s) ! i)"
  by (cases e) (auto simp add: commit_route unmount_fields route_inv_def nth_append
      nth_cancelCurrent)

lemma cancelled_step:
  "i < length (attempts s) \<and> isCancelled (attempts s ! i) \<Longrightarrow>
     i < length (attempts (step e s)) \<and> isCancelled (attempts (step e s) ! i)"
proof (cases "isUi e")
  case True
  assume "i < length (attempts s) \<and> isCancelled (attempts s ! i)"
  then show ?thesis by (simp add: step_ui_keeps [OF True])
next
  case False
  assume "i < length (attempts s) \<and> isCancelled (attempts s ! i)"
  with False show ?thesis
    by (cases e) (auto simp add: commit_route unmount_fields resolve_writes nth_append
        nth_cancelCurrent nth_list_update)
qed

lemma cancelled_run:
  "i < length (attempts s) \<and> isCancelled (attempts s ! i) \<Longrightarrow>
     i < length (attempts (run evs s)) \<and> isCancelled (attempts (run evs s) ! i)"
proof (induction evs arbitrary: s)
  case Nil
  then show ?case by simp
next
  case (Cons e evs)
  from Cons.IH [OF cancelled_step [OF Cons.prems]] show ?case by simp
qed

lemma resolve_cancelled:
  "i < length (attempts s) \<Longrightarrow> isCancelled (attempts s ! i) \<Longrightarrow>
     routeView (resolve i r s) = routeView s"
  by (simp add: routeView_def resolve_writes draws_def)

lemma resolve_changes:
  "routeView (resolve i r s) \<noteq> routeView s \<Longrightarrow> draws i r s \<noteq> []"
  by (cases "draws i r s") (simp_all add: routeView_def resolve_writes)

section \<open>Stale completions\<close>

text \<open>
  C1. Take any reachable state, an attempt \<open>i\<close> started so far, and an event that tears
  the route effect down (unmounting, or a commit in which showRoute, userLocation,
  routeDestination, isPickingLocation or the map instance changed). After that event
  and any further events, the answer to attempt \<open>i\<close> changes neither the attached
  layers, nor \<^verbatim>\<open>routeLayerRef\<close>, nor the view commands, nor the fitted flag. And in any
  reachable state an answer that does change one of them is the answer to the attempt
  started last, the one whose cleanup is registered.
\<close>

theorem stale_fetch_is_noop:
  "(i < length (attempts (run evs (mount p))) \<and> tearsDown e (run evs (mount p)) \<longrightarrow>
      routeView (step (Resolve i r) (run evs' (step e (run evs (mount p))))) =
      routeView (run evs' (step e (run evs (mount p))))) \<and>
   (routeView (step (Resolve j r) (run evs (mount p))) \<noteq> routeView (run evs (mount p)) \<longrightarrow>
      routeCleanup (run evs (mount p)) = Some j \<and>
      Suc j = length (attempts (run evs (mount p))))"
proof (intro conjI impI)
  let ?s = "run evs (mount p)"
  assume a: "i < length (attempts ?s) \<and> tearsDown e ?s"
  have inv: "route_inv ?s" by (rule route_inv_reachable)
  from a teardown_cancels [OF inv]
  have "i < length (attempts (step e ?s)) \<and> isCancelled (attempts (step e ?s) ! i)"
    by blast
  from cancelled_run [OF this, of evs']
  show "routeView (step (Resolve i r) (run evs' (step e ?s))) = routeView (run evs' (step e ?s))"
    by (simp add: resolve_cancelled)
next
  let ?s = "run evs (mount p)"
  assume "routeView (step (Resolve j r) ?s) \<noteq> routeView ?s"
  then have "routeView (resolve j r ?s) \<noteq> routeView ?s"
    by simp
  from resolve_changes [OF this] have "draws j r ?s \<noteq> []" .
  from draws_current [OF route_inv_reachable this]
  show "routeCleanup ?s = Some j" and "Suc j = length (attempts ?s)"
    by simp_all
qed

theorem stale_fetch_is_noop_witness:
  "0 < length (attempts (run [] (mount propsC))) \<and>
   tearsDown (Render propsMoved) (run [] (mount propsC)) \<and>
   routeView (step (Resolve 0 Failed) (run [] (step (Render propsMoved) (run [] (mount propsC))))) =
   routeView (run [] (step (Render propsMoved) (run [] (mount propsC)))) \<and>
   routeView (step (Resolve 0 Failed) (run [] (mount propsC))) \<noteq> routeView (run [] (mount propsC)) \<and>
   routeCleanup (run [] (mount propsC)) = Some 0"
proof -
  have a: "0 < length (attempts (run [] (mount propsC)))"
    by (simp add: mountC)
  have b: "tearsDown (Render propsMoved) (run [] (mount propsC))"
    by (simp add: mountC) (simp add: routeDeps_def propsMoved_def propsC_def)
  have c: "routeView (step (Resolve 0 Failed) (run [] (mount propsC))) \<noteq>
           routeView (run [] (mount propsC))"
    by (simp add: routeView_def resolve_writes draws_def mountC)
  from a b c stale_fetch_is_noop [of 0 "[]" propsC "Render propsMoved" Failed "[]" 0]
  show ?thesis by blast
qed

section \<open>A single overlay\<close>

text \<open>
  C3. In scenario C the reply to attempt 0 holds a route with an empty list of
  coordinates. The solid polyline is attached, the fit to its bounds throws, and the
  \<^verbatim>\<open>catch\<close> block attaches the dashed line as well and stores it in \<^verbatim>\<open>routeLayerRef\<close>: two
  overlays are attached. When the route is ended, the cleanup removes the dashed line
  and the solid polyline stays on the map. A route with a point is attached alone and
  removed by the cleanup.
\<close>

theorem empty_route_leaves_second_overlay:
  "layers (run [Resolve 0 emptyRoute] (mount propsC)) =
     [\<lparr>path = [], style = Solid\<rparr>, \<lparr>path = [(41.01, 29.01), (41, 29)], style = Dashed\<rparr>] \<and>
   routeLayerRef (run [Resolve 0 emptyRoute] (mount propsC)) =
     Some \<lparr>path = [(41.01, 29.01), (41, 29)], style = Dashed\<rparr> \<and>
   layers (run [Resolve 0 emptyRoute, Render propsEnded] (mount propsC)) =
     [\<lparr>path = [], style = Solid\<rparr>] \<and>
   layers (run [Resolve 0 (Parsed (Some [Some [(29, 41)]]))] (mount propsC)) =
     [\<lparr>path = [(41, 29)], style = Solid\<rparr>] \<and>
   layers (run [Resolve 0 (Parsed (Some [Some [(29, 41)]])), Render propsEnded] (mount propsC)) = []"
proof -
  have d: "routeDeps propsEnded True \<noteq> routeDeps propsC True"
    by (simp add: routeDeps_def propsEnded_def propsC_def)
  show ?thesis
    using d
    by (simp add: emptyRoute_def mountC commit_route resolve_writes draws_def dropLayer_def)
qed

section \<open>Fitting the view once\<close>

lemma flights_filter [simp]:
  "filter isFit (userFlight p mi um) = []"
  "filter isFit (centerFlight p mi) = []"
  "filter isCenter (userFlight p mi um) = []"
  "filter isCenter (centerFlight p mi) = centerFlight p mi"
  by (simp_all add: userFlight_def centerFlight_def split: option.splits prod.splits)

lemma fit_step:
  "hasFittedRouteRef s \<Longrightarrow> \<not> resetsFit e s \<Longrightarrow>
     hasFittedRouteRef (step e s) \<and> filter isFit (views (step e s)) = filter isFit (views s)"
proof (cases "isUi e")
  case True
  assume "hasFittedRouteRef s"
  then show ?thesis by (simp add: step_ui_keeps [OF True])
next
  case False
  assume "hasFittedRouteRef s" "\<not> resetsFit e s"
  with False show ?thesis
    by (cases e) (auto simp add: commit_views commit_fitted unmount_fields resolve_writes
        split: option.splits)
qed

lemma fit_run:
  "hasFittedRouteRef s \<Longrightarrow> noReset evs s \<Longrightarrow>
     hasFittedRouteRef (run evs s) \<and> filter isFit (views (run evs s)) = filter isFit (views s)"
proof (induction evs arbitrary: s)
  case Nil
  then show ?case by simp
next
  case (Cons e evs)
  from Cons.prems have a: "\<not> resetsFit e s" and b: "noReset evs (step e s)"
    by simp_all
  from fit_step [OF Cons.prems(1) a] Cons.IH [OF _ b] show ?case
    by simp
qed

lemma reset_step: "resetsFit e s \<Longrightarrow> \<not> hasFittedRouteRef (step e s)"
  by (cases e) (simp_all add: commit_fitted)

text \<open>
  C5, as the code has it. When the fitted flag is not set, an answer that attaches an
  overlay fits the view to the overlay that \<^verbatim>\<open>routeLayerRef\<close> then holds (the route, or the
  fallback line) and sets the flag. A commit in which the \<^verbatim>\<open>routeDestination\<close> prop, as
  the dependency array compares it, or \<^verbatim>\<open>showRoute\<close> changed clears the flag. Once the
  flag is set, it stays set and no further fit is issued over any run of events that
  contains no such commit: later answers, also for a moved origin, attach their overlay
  without fitting.
\<close>

theorem fit_once_per_reference:
  "(\<not> hasFittedRouteRef s \<and> draws i r s \<noteq> [] \<longrightarrow>
      layers (step (Resolve i r) s) = layers s @ draws i r s \<and>
      routeLayerRef (step (Resolve i r) s) = Some (last (draws i r s)) \<and>
      views (step (Resolve i r) s) =
        views s @ [FitBounds (path (last (draws i r s))) (50, 50)] \<and>
      hasFittedRouteRef (step (Resolve i r) s)) \<and>
   (resetsFit e s \<longrightarrow> \<not> hasFittedRouteRef (step e s)) \<and>
   (hasFittedRouteRef s \<and> noReset evs s \<longrightarrow>
      hasFittedRouteRef (run evs s) \<and>
      filter isFit (views (run evs s)) = filter isFit (views s))"
  using fit_run [of s evs] reset_step [of e s] by (simp add: resolve_writes)

theorem fit_once_per_reference_witness:
  "\<not> hasFittedRouteRef (mount propsC) \<and>
   draws 0 Failed (mount propsC) = [\<lparr>path = [(41.01, 29.01), (41, 29)], style = Dashed\<rparr>] \<and>
   views (step (Resolve 0 Failed) (mount propsC)) =
     [SetView (41.01, 29.01) 13, FitBounds [(41.01, 29.01), (41, 29)] (50, 50)] \<and>
   hasFittedRouteRef (step (Resolve 0 Failed) (mount propsC)) \<and>
   resetsFit (Render propsEnded) (step (Resolve 0 Failed) (mount propsC)) \<and>
   \<not> hasFittedRouteRef (step (Render propsEnded) (step (Resolve 0 Failed) (mount propsC))) \<and>
   noReset [Render propsMoved, Resolve 1 Failed] (step (Resolve 0 Failed) (mount propsC)) \<and>
   layers (run [Render propsMoved, Resolve 1 Failed] (step (Resolve 0 Failed) (mount propsC))) =
     [\<lparr>path = [(41.02, 29.02), (41, 29)], style = Dashed\<rparr>] \<and>
   filter isFit (views (run [Render propsMoved, Resolve 1 Failed]
                          (step (Resolve 0 Failed) (mount propsC)))) =
     [FitBounds [(41.01, 29.01), (41, 29)] (50, 50)]"
proof -
  let ?s = "step (Resolve 0 Failed) (mount propsC)"
  let ?l = "\<lparr>path = [(41.01, 29.01), (41, 29)], style = Dashed\<rparr>"
  have a: "\<not> hasFittedRouteRef (mount propsC)" "draws 0 Failed (mount propsC) = [?l]"
    by (simp_all add: mountC draws_def)
  have b: "noReset [Render propsMoved, Resolve 1 Failed] ?s"
    by (simp add: mountC commit_fields) (simp add: fittedDeps_def propsMoved_def propsC_def)
  have g: "resetsFit (Render propsEnded) ?s"
    by (simp add: mountC) (simp add: fittedDeps_def propsEnded_def propsC_def)
  have d: "routeDeps propsMoved True \<noteq> routeDeps propsC True"
    by (simp add: routeDeps_def propsMoved_def propsC_def)
  have e: "startRoute propsMoved = InFlight (41.02, 29.02) (41, 29)"
    by (simp add: startRoute_def propsMoved_def propsC_def propsA_def station1_def)
  have c: "layers (run [Render propsMoved, Resolve 1 Failed] ?s) =
             [\<lparr>path = [(41.02, 29.02), (41, 29)], style = Dashed\<rparr>]"
    using d e
    by (simp add: mountC commit_route commit_fields resolve_writes draws_def a dropLayer_def
        cancelCurrent_def cancel_def inFlight_def nth_append)
  have f: "views (mount propsC) = [SetView (41.01, 29.01) 13]"
    by (simp add: mountC)
  from a f fit_once_per_reference [of "mount propsC" 0 Failed "Render propsEnded" "[]"]
  have 1: "views (step (Resolve 0 Failed) (mount propsC)) =
             [SetView (41.01, 29.01) 13, FitBounds [(41.01, 29.01), (41, 29)] (50, 50)]"
    "hasFittedRouteRef ?s"
    by simp_all
  from 1 b g
    fit_once_per_reference [of ?s 0 Failed "Render propsEnded"
      "[Render propsMoved, Resolve 1 Failed]"]
  have 2: "\<not> hasFittedRouteRef (step (Render propsEnded) ?s)"
    "filter isFit (views (run [Render propsMoved, Resolve 1 Failed] ?s)) =
       [FitBounds [(41.01, 29.01), (41, 29)] (50, 50)]"
    by simp_all
  from a b c g 1 2 show ?thesis by simp
qed

text \<open>
  The claim as stated fails: in scenario C, after the first fit, the component is
  rendered again with the same origin, the same destination station and routing still
  on, the station being passed as a fresh object. The flag is cleared and the answer to
  the new request fits the view a second time.
\<close>

theorem fresh_destination_refits_counterexample:
  "userLocation propsFresh = userLocation propsC \<and>
   map_option snd (routeDestination propsFresh) = map_option snd (routeDestination propsC) \<and>
   showRoute propsFresh \<and> showRoute propsC \<and>
   filter isFit (views (run [Resolve 0 Failed, Render propsFresh, Resolve 1 Failed]
                          (mount propsC))) =
     [FitBounds [(41.01, 29.01), (41, 29)] (50, 50),
      FitBounds [(41.01, 29.01), (41, 29)] (50, 50)]"
proof -
  have a: "userLocation propsFresh = userLocation propsC"
    "map_option snd (routeDestination propsFresh) = map_option snd (routeDestination propsC)"
    "showRoute propsFresh" "showRoute propsC"
    by (simp_all add: propsFresh_def propsC_def propsA_def)
  have d: "routeDeps propsFresh True \<noteq> routeDeps propsC True"
    "fittedDeps propsFresh \<noteq> fittedDeps propsC"
    "userDeps propsFresh True = userDeps propsC True"
    "centerDeps propsFresh True = centerDeps propsC True"
    by (simp_all add: routeDeps_def fittedDeps_def userDeps_def centerDeps_def propsFresh_def
        propsC_def)
  have e: "startRoute propsFresh = InFlight (41.01, 29.01) (41, 29)"
    by (simp add: startRoute_def propsFresh_def propsC_def propsA_def station1_def)
  have "filter isFit (views (run [Resolve 0 Failed, Render propsFresh, Resolve 1 Failed]
                          (mount propsC))) =
     [FitBounds [(41.01, 29.01), (41, 29)] (50, 50),
      FitBounds [(41.01, 29.01), (41, 29)] (50, 50)]"
    using d e
    by (simp add: mountC commit_route commit_fields commit_views commit_fitted resolve_writes
        draws_def cancelCurrent_def cancel_def nth_append)
  with a show ?thesis by simp
qed

section \<open>Centering on the selection\<close>

lemma mount_center:
  "filter isCenter (views (mount p)) = centerFlight p True"
  by (simp add: mount_def commit_defs initial_def centerDeps_def centerFlight_def
      split: option.splits)

text \<open>
  C6, as the code has it. In a commit of the mounted component the centering flight (to
  the selected station, zoom 16) is issued exactly when one of \<^verbatim>\<open>selectedStation\<close>,
  \<^verbatim>\<open>showRoute\<close>, \<^verbatim>\<open>isPickingLocation\<close> and the map instance changed and, after the change,
  a station is selected, no route is shown and picking is off. A commit that changes
  none of them issues none. Mounting, in which the map instance appears, issues the
  flight under the same condition on the props.
\<close>

theorem center_on_dependency_change:
  "(mounted s \<longrightarrow>
     filter isCenter (views (step (Render p) s)) =
     filter isCenter (views s) @
       (case selectedStation p of
          Some (_, st) \<Rightarrow>
            if ((selectedStation p, showRoute p, isPickingLocation p) \<noteq>
                (selectedStation (cur s), showRoute (cur s), isPickingLocation (cur s)) \<or>
                \<not> mapInstance s) \<and>
               \<not> showRoute p \<and> \<not> isPickingLocation p
            then [FlyTo (lat (st_location st), lng (st_location st)) 16 (Some (3 / 2))]
            else []
        | None \<Rightarrow> [])) \<and>
   filter isCenter (views (mount q)) =
     (case selectedStation q of
        Some (_, st) \<Rightarrow>
          if \<not> showRoute q \<and> \<not> isPickingLocation q
          then [FlyTo (lat (st_location st), lng (st_location st)) 16 (Some (3 / 2))]
          else []
      | None \<Rightarrow> [])"
  by (auto simp add: commit_views mount_center centerDeps_def centerFlight_def
      split: option.splits)

theorem center_on_dependency_change_witness:
  "mounted (mount propsC) \<and> mapInstance (mount propsC) \<and>
   filter isCenter (views (step (Render propsMoved) (mount propsC))) =
   filter isCenter (views (mount propsC)) \<and>
   filter isCenter (views (mount propsB)) = [FlyTo (41, 29) 16 (Some (3 / 2))]"
proof -
  have a: "mounted (mount propsC) \<and> mapInstance (mount propsC)"
    by (simp add: mountC)
  have b: "cur (mount propsC) = propsC"
    by (simp add: mountC)
  from a center_on_dependency_change [of "mount propsC" propsMoved propsB] show ?thesis
    unfolding b by (simp add: propsMoved_def propsC_def propsB_def propsA_def station1_def)
qed

text \<open>
  The claim as stated fails: in scenario C the route is ended while station 1 stays
  selected, and the view flies to the station again.
\<close>

theorem center_refires_counterexample:
  "selectedStation propsEnded = selectedStation propsC \<and>
   filter isCenter (views (mount propsC)) = [] \<and>
   filter isCenter (views (step (Render propsEnded) (mount propsC))) =
     [FlyTo (41, 29) 16 (Some (3 / 2))]"
proof -
  have b: "cur (mount propsC) = propsC" "mounted (mount propsC)" "mapInstance (mount propsC)"
    "views (mount propsC) = [SetView (41.01, 29.01) 13]"
    by (simp_all add: mountC)
  show ?thesis
    by (simp add: commit_views b)
      (simp add: centerDeps_def centerFlight_def propsEnded_def propsC_def propsA_def station1_def)
qed

section \<open>The invariant of the other effects\<close>

lemma commit_ui:
  "widget (commit False p True s) = widget s"
  "listeners (commit False p True s) =
     (case pickCleanup s of
        Some h \<Rightarrow> if pickingDeps p True \<noteq> pickingDeps (cur s) (mapInstance s)
                  then remove1 h (listeners s) else listeners s
      | None \<Rightarrow> listeners s) @
     (if pickingDeps p True \<noteq> pickingDeps (cur s) (mapInstance s) \<and> isPickingLocation p
      then [onLocationPicked p] else [])"
  "pickCleanup (commit False p True s) =
     (if pickingDeps p True \<noteq> pickingDeps (cur s) (mapInstance s)
      then (if isPickingLocation p then Some (onLocationPicked p) else None)
      else pickCleanup s)"
  "clusterGroupRef (commit False p True s) =
     (if stationsDeps p True \<noteq> stationsDeps (cur s) (mapInstance s) \<and> clusterGroupRef s \<noteq> None
      then Some (map (markerFor p) (snd (stations p))) else clusterGroupRef s)"
  "onCreateRouteRef (commit False p True s) =
     (if refsDeps p \<noteq> refsDeps (cur s) then onCreateRoute p else onCreateRouteRef s)"
  "onRemoveRouteRef (commit False p True s) =
     (if refsDeps p \<noteq> refsDeps (cur s) then onRemoveRoute p else onRemoveRouteRef s)"
  "onReportStatusRef (commit False p True s) =
     (if refsDeps p \<noteq> refsDeps (cur s) then onReportStatus p else onReportStatusRef s)"
  "onDeselectRef (commit False p True s) =
     (if refsDeps p \<noteq> refsDeps (cur s) then onDeselect p else onDeselectRef s)"
  "userMarkerRef (commit False p True s) =
     (case userLocation p of
        Some (_, u) \<Rightarrow> if userDeps p True \<noteq> userDeps (cur s) (mapInstance s)
                       then Some (lat u, lng u) else userMarkerRef s
      | None \<Rightarrow> userMarkerRef s)"
  by (simp_all add: commit_defs split: option.splits)

lemma markerFor_deps:
  "stationsDeps p mi = stationsDeps q mi \<Longrightarrow>
     markerFor (p\<lparr>onStationSelect := h\<rparr>) = markerFor (q\<lparr>onStationSelect := h\<rparr>)"
  by (auto simp add: stationsDeps_def markerFor_def isSelected_def isDestination_def fun_eq_iff)

lemma ui_inv_mount: "ui_inv (mount p)"
proof -
  have "clusterGroupRef (mount p) =
          Some (map (markerFor (p\<lparr>onStationSelect := onStationSelect p\<rparr>)) (snd (stations p)))"
    by (simp add: mount_def commit_defs initial_def stationsDeps_def)
  then have "\<exists>h. clusterGroupRef (mount p) =
          Some (map (markerFor (p\<lparr>onStationSelect := h\<rparr>)) (snd (stations p)))"
    by blast
  moreover have "cur (mount p) = p" "mounted (mount p)"
    by (simp_all add: mount_def commit_defs initial_def)
  ultimately show ?thesis
    unfolding ui_inv_def
    by (simp add: mount_def commit_defs initial_def pickingDeps_def refsDeps_def)
qed

lemma ui_inv_commit:
  assumes "ui_inv s" "mounted s"
  shows "ui_inv (commit False p True s)"
proof -
  from assms obtain h where h:
    "clusterGroupRef s = Some (map (markerFor ((cur s)\<lparr>onStationSelect := h\<rparr>)) (snd (stations (cur s))))"
    by (auto simp add: ui_inv_def)
  from assms have mi: "mapInstance s"
    by (simp add: ui_inv_def)
  have "\<exists>h'. clusterGroupRef (commit False p True s) =
           Some (map (markerFor (p\<lparr>onStationSelect := h'\<rparr>)) (snd (stations p)))"
  proof (cases "stationsDeps p True \<noteq> stationsDeps (cur s) (mapInstance s)")
    case True
    then have "clusterGroupRef (commit False p True s) =
        Some (map (markerFor (p\<lparr>onStationSelect := onStationSelect p\<rparr>)) (snd (stations p)))"
      by (simp add: commit_ui h)
    then show ?thesis by blast
  next
    case False
    then have eq: "stationsDeps p True = stationsDeps (cur s) True"
      using mi by simp
    then have "stations p = stations (cur s)"
      by (simp add: stationsDeps_def)
    with False h markerFor_deps [OF eq, of h] have "clusterGroupRef (commit False p True s) =
        Some (map (markerFor (p\<lparr>onStationSelect := h\<rparr>)) (snd (stations p)))"
      by (simp add: commit_ui)
    then show ?thesis by blast
  qed
  with assms show ?thesis
    unfolding ui_inv_def commit_ui commit_fields
    by (auto simp add: pickingDeps_def refsDeps_def)
qed

lemma ui_inv_step: "ui_inv s \<Longrightarrow> ui_inv (step e s)"
proof (cases "isUi e")
  case True
  assume "ui_inv s"
  then show ?thesis
    by (simp add: ui_inv_def step_ui_keeps [OF True])
next
  case False
  assume "ui_inv s"
  with False show ?thesis
    by (cases e) (auto simp add: ui_inv_commit, simp_all add: ui_inv_def unmount_fields)
qed

lemma ui_inv_run: "ui_inv s \<Longrightarrow> ui_inv (run evs s)"
  by (induction evs arbitrary: s) (simp_all add: ui_inv_step)

lemma ui_inv_reachable: "ui_inv (run evs (mount p))"
  by (simp add: ui_inv_run ui_inv_mount)

lemma mount_fields:
  "mounted (mount p)" "mapInstance (mount p)" "widget (mount p)" "cur (mount p) = p"
  "signals (mount p) = []"
  "clusterGroupRef (mount p) = Some (map (markerFor p) (snd (stations p)))"
  "userMarkerRef (mount p) =
     (case userLocation p of Some (_, u) \<Rightarrow> Some (lat u, lng u) | None \<Rightarrow> None)"
  by (simp_all add: mount_def commit_defs initial_def stationsDeps_def userDeps_def
      split: option.splits)

section \<open>Clicks\<close>

text \<open>
  C9. In every reachable state in which the map exists, a click on the route button
  whose \<^verbatim>\<open>data-action\<close> is \<^verbatim>\<open>remove\<close> while no remove-route handler is registered calls the
  create-route handler, if one is registered, and nothing else; so does a click with
  any other \<^verbatim>\<open>data-action\<close>, or none.
\<close>

theorem route_button_dispatch:
  "(widget (run evs (mount p)) \<and> a = Some ''remove'' \<and>
    onRemoveRoute (cur (run evs (mount p))) = None \<longrightarrow>
      signals (step (RouteBtnClick a) (run evs (mount p))) =
      signals (run evs (mount p)) @
        (case onCreateRoute (cur (run evs (mount p))) of
           Some h \<Rightarrow> [CreateRoute h] | None \<Rightarrow> [])) \<and>
   (widget (run evs (mount p)) \<and> a \<noteq> Some ''remove'' \<longrightarrow>
      signals (step (RouteBtnClick a) (run evs (mount p))) =
      signals (run evs (mount p)) @
        (case onCreateRoute (cur (run evs (mount p))) of
           Some h \<Rightarrow> [CreateRoute h] | None \<Rightarrow> []))"
  using ui_inv_reachable [of evs p]
  by (auto simp add: ui_inv_def routeBtnClick_def split: option.splits)

theorem route_button_dispatch_witness:
  "widget (run [] (mount propsC)) \<and> onRemoveRoute (cur (run [] (mount propsC))) = None \<and>
   signals (step (RouteBtnClick (Some ''remove'')) (run [] (mount propsC))) = [CreateRoute 13] \<and>
   Some ''create'' \<noteq> Some ''remove'' \<and>
   signals (step (RouteBtnClick (Some ''create'')) (run [] (mount propsC))) = [CreateRoute 13]"
proof -
  have a: "widget (run [] (mount propsC))" "signals (run [] (mount propsC)) = []"
    by (simp_all add: mountC)
  have b: "onRemoveRoute (cur (run [] (mount propsC))) = None"
    "onCreateRoute (cur (run [] (mount propsC))) = Some 13"
    by (simp_all add: mountC) (simp_all add: propsC_def propsA_def)
  have c: "Some ''create'' \<noteq> Some ''remove''"
    by simp
  from a b c route_button_dispatch [of "[]" propsC "Some ''remove''"]
    route_button_dispatch [of "[]" propsC "Some ''create''"]
  show ?thesis by simp
qed

text \<open>
  C8. In every reachable state in which the map exists, a click on the marker of the
  \<open>k\<close>-th station calls the selection handler once, with that station, when picking
  mode is off, and calls nothing when it is on; a click on the map calls the
  location-picked handler (when one was given) with the clicked coordinate when picking
  mode is on, and nothing when it is off.
\<close>

theorem click_signals:
  "(widget (run evs (mount p)) \<and> clusterGroupRef (run evs (mount p)) = Some ms \<and>
    k < length ms \<longrightarrow>
      signals (step (MarkerClick k) (run evs (mount p))) =
      signals (run evs (mount p)) @
        (if isPickingLocation (cur (run evs (mount p))) then []
         else [StationSelected (m_onSelect (ms ! k))
                 (snd (stations (cur (run evs (mount p)))) ! k)])) \<and>
   (widget (run evs (mount p)) \<longrightarrow>
      signals (step (MapClick c) (run evs (mount p))) =
      signals (run evs (mount p)) @
        (if isPickingLocation (cur (run evs (mount p)))
         then (case onLocationPicked (cur (run evs (mount p))) of
                 Some h \<Rightarrow> [LocationPicked h \<lparr>lat = fst c, lng = snd c\<rparr>]
               | None \<Rightarrow> [])
         else []))"
proof (intro conjI impI)
  let ?s = "run evs (mount p)"
  have inv: "ui_inv ?s" by (rule ui_inv_reachable)
  assume a: "widget ?s \<and> clusterGroupRef ?s = Some ms \<and> k < length ms"
  with inv obtain h where
    "ms = map (markerFor ((cur ?s)\<lparr>onStationSelect := h\<rparr>)) (snd (stations (cur ?s)))"
    by (auto simp add: ui_inv_def)
  with a show "signals (step (MarkerClick k) ?s) =
      signals ?s @ (if isPickingLocation (cur ?s) then []
         else [StationSelected (m_onSelect (ms ! k)) (snd (stations (cur ?s)) ! k)])"
    by (simp add: markerClick_def markerFor_def Let_def)
next
  let ?s = "run evs (mount p)"
  have inv: "ui_inv ?s" by (rule ui_inv_reachable)
  assume "widget ?s"
  with inv show "signals (step (MapClick c) ?s) =
      signals ?s @
        (if isPickingLocation (cur ?s)
         then (case onLocationPicked (cur ?s) of
                 Some h \<Rightarrow> [LocationPicked h \<lparr>lat = fst c, lng = snd c\<rparr>]
               | None \<Rightarrow> [])
         else [])"
    by (simp add: ui_inv_def mapClick_def pickHandler_def)
qed


theorem click_signals_witness:
  "widget (run [] (mount propsA)) \<and>
   clusterGroupRef (run [] (mount propsA)) = Some [markerFor propsA station1] \<and>
   0 < length [markerFor propsA station1] \<and>
   signals (step (MarkerClick 0) (run [] (mount propsA))) = [StationSelected 10 station1] \<and>
   widget (run [] (mount propsPicking)) \<and>
   clusterGroupRef (run [] (mount propsPicking)) = Some [markerFor propsPicking station1] \<and>
   signals (step (MarkerClick 0) (run [] (mount propsPicking))) = [] \<and>
   signals (step (MapClick (41.5, 29.5)) (run [] (mount propsPicking))) =
     [LocationPicked 12 \<lparr>lat = 41.5, lng = 29.5\<rparr>]"
proof -
  have a: "widget (run [] (mount propsA))"
    "clusterGroupRef (run [] (mount propsA)) = Some [markerFor propsA station1]"
    "signals (run [] (mount propsA)) = []"
    by (simp_all add: mount_fields) (simp add: propsA_def)
  have b: "widget (run [] (mount propsPicking))"
    "clusterGroupRef (run [] (mount propsPicking)) = Some [markerFor propsPicking station1]"
    "signals (run [] (mount propsPicking)) = []"
    by (simp_all add: mount_fields) (simp add: propsPicking_def propsA_def)
  have c: "\<not> isPickingLocation (cur (run [] (mount propsA)))"
    "m_onSelect (markerFor propsA station1) = 10"
    "snd (stations (cur (run [] (mount propsA)))) = [station1]"
    by (simp_all add: mount_fields markerFor_def) (simp_all add: propsA_def)
  have d: "isPickingLocation (cur (run [] (mount propsPicking)))"
    "onLocationPicked (cur (run [] (mount propsPicking))) = Some 12"
    by (simp_all add: mount_fields) (simp_all add: propsPicking_def propsA_def)
  from a c click_signals [of "[]" propsA "[markerFor propsA station1]" 0 "(41.5, 29.5)"]
  have 1: "signals (step (MarkerClick 0) (run [] (mount propsA))) = [StationSelected 10 station1]"
    by simp
  from b d click_signals [of "[]" propsPicking "[markerFor propsPicking station1]" 0 "(41.5, 29.5)"]
  have 2: "signals (step (MarkerClick 0) (run [] (mount propsPicking))) = []"
    "signals (step (MapClick (41.5, 29.5)) (run [] (mount propsPicking))) =
       [LocationPicked 12 \<lparr>lat = 41.5, lng = 29.5\<rparr>]"
    by simp_all
  from a b 1 2 show ?thesis by simp
qed

section \<open>The user marker\<close>

text \<open>
  C10. When the user-location effect runs with a location and no user marker yet, it
  creates the marker there and flies to the location at zoom 14 only if no station is
  selected; it changes nothing else. When the marker exists, the effect only moves it.
  A commit of the mounted component in which only the user location changed, the
  marker existing, issues no view command and moves the marker.
\<close>

theorem user_location_update:
  "(mapInstance s \<and> userLocation (cur s) = Some (k, u) \<and> userMarkerRef s = None \<longrightarrow>
      userLocationEffect s =
        s\<lparr>userMarkerRef := Some (lat u, lng u),
          views := views s @
            (if selectedStation (cur s) = None then [FlyTo (lat u, lng u) 14 None] else [])\<rparr>) \<and>
   (mapInstance s \<and> userLocation (cur s) = Some (k, u) \<and> userMarkerRef s \<noteq> None \<longrightarrow>
      userLocationEffect s = s\<lparr>userMarkerRef := Some (lat u, lng u)\<rparr>) \<and>
   (mounted s \<and> mapInstance s \<and> userMarkerRef s \<noteq> None \<and>
    p = (cur s)\<lparr>userLocation := Some (k, u)\<rparr> \<and> p \<noteq> cur s \<longrightarrow>
      views (step (Render p) s) = views s \<and>
      userMarkerRef (step (Render p) s) = Some (lat u, lng u))"
proof (intro conjI impI)
  assume "mapInstance s \<and> userLocation (cur s) = Some (k, u) \<and> userMarkerRef s = None"
  then show "userLocationEffect s =
        s\<lparr>userMarkerRef := Some (lat u, lng u),
          views := views s @
            (if selectedStation (cur s) = None then [FlyTo (lat u, lng u) 14 None] else [])\<rparr>"
    by (simp add: userLocationEffect_def Let_def)
next
  assume "mapInstance s \<and> userLocation (cur s) = Some (k, u) \<and> userMarkerRef s \<noteq> None"
  then show "userLocationEffect s = s\<lparr>userMarkerRef := Some (lat u, lng u)\<rparr>"
    by (auto simp add: userLocationEffect_def Let_def)
next
  assume a: "mounted s \<and> mapInstance s \<and> userMarkerRef s \<noteq> None \<and>
    p = (cur s)\<lparr>userLocation := Some (k, u)\<rparr> \<and> p \<noteq> cur s"
  then have u: "userLocation p = Some (k, u)" "userLocation (cur s) \<noteq> Some (k, u)"
    by auto
  from a have c: "centerDeps p True = centerDeps (cur s) (mapInstance s)"
    by (simp add: centerDeps_def)
  from a u c show "views (step (Render p) s) = views s"
    by (auto simp add: commit_views userFlight_def)
  from a u show "userMarkerRef (step (Render p) s) = Some (lat u, lng u)"
    by (simp add: commit_ui userDeps_def)
qed

theorem user_location_update_witness:
  "mapInstance ((mount propsA)\<lparr>cur := propsC\<rparr>) \<and>
   userLocation (cur ((mount propsA)\<lparr>cur := propsC\<rparr>)) = Some (1, \<lparr>lat = 41.01, lng = 29.01\<rparr>) \<and>
   userMarkerRef ((mount propsA)\<lparr>cur := propsC\<rparr>) = None \<and>
   views (userLocationEffect ((mount propsA)\<lparr>cur := propsC\<rparr>)) = views (mount propsA) \<and>
   mounted (mount propsC) \<and> userMarkerRef (mount propsC) \<noteq> None \<and>
   propsMoved \<noteq> cur (mount propsC) \<and>
   views (step (Render propsMoved) (mount propsC)) = views (mount propsC) \<and>
   userMarkerRef (step (Render propsMoved) (mount propsC)) = Some (41.02, 29.02) \<and>
   userLocationEffect ((mount propsC)\<lparr>cur := propsMoved\<rparr>) =
     (mount propsC)\<lparr>cur := propsMoved, userMarkerRef := Some (41.02, 29.02)\<rparr>"
proof -
  let ?s = "(mount propsA)\<lparr>cur := propsC\<rparr>"
  let ?u = "\<lparr>lat = 41.01, lng = 29.01\<rparr>"
  let ?v = "\<lparr>lat = 41.02, lng = 29.02\<rparr>"
  let ?t = "(mount propsC)\<lparr>cur := propsMoved\<rparr>"
  have a: "mapInstance ?s" "userLocation (cur ?s) = Some (1, ?u)" "userMarkerRef ?s = None"
    "selectedStation (cur ?s) \<noteq> None"
    by (simp_all add: mount_fields) (simp_all add: propsC_def propsA_def)
  have b: "mounted (mount propsC)" "mapInstance (mount propsC)"
    "userMarkerRef (mount propsC) \<noteq> None" "cur (mount propsC) = propsC"
    by (simp_all add: mountC)
  have c: "propsMoved = (cur (mount propsC))\<lparr>userLocation := Some (3, ?v)\<rparr>"
    "propsMoved \<noteq> cur (mount propsC)"
    by (simp_all add: b) (simp_all add: propsMoved_def propsC_def propsA_def)
  have d: "mapInstance ?t" "userLocation (cur ?t) = Some (3, ?v)" "userMarkerRef ?t \<noteq> None"
    by (simp_all add: mountC) (simp add: propsMoved_def)
  from a user_location_update [of ?s 1 ?u propsMoved]
  have 1: "views (userLocationEffect ?s) = views (mount propsA)"
    by simp
  from b c user_location_update [of "mount propsC" 3 ?v propsMoved]
  have 2: "views (step (Render propsMoved) (mount propsC)) = views (mount propsC)"
    "userMarkerRef (step (Render propsMoved) (mount propsC)) = Some (41.02, 29.02)"
    by simp_all
  from d user_location_update [of ?t 3 ?v propsMoved]
  have 3: "userLocationEffect ?t = ?t\<lparr>userMarkerRef := Some (41.02, 29.02)\<rparr>"
    by simp
  from a b c 1 2 3 show ?thesis by simp
qed

end
